theory Spec2Isabelle
  imports Complex_Main "HOL-Library.AList"
begin

section \<open>JavaScript values used by the code-painting action\<close>

text \<open>
  The action (\<^verbatim>\<open>.github/actions/code-painting/index.js\<close>) computes with
  JavaScript numbers. A number is either finite (an IEEE double, which denotes a
  rational) or one of \<^verbatim>\<open>NaN\<close>, \<^verbatim>\<open>Infinity\<close>, \<^verbatim>\<open>-Infinity\<close>. Comparisons
  between finite numbers are comparisons of the rationals they denote.
\<close>

datatype jsnumber = Finite rat | NaN | PosInfinity | NegInfinity

text \<open>\<^verbatim>\<open>Number.isFinite(n)\<close>.\<close>

fun isFinite :: "jsnumber \<Rightarrow> bool" where
  "isFinite (Finite r) = True"
| "isFinite NaN = False"
| "isFinite PosInfinity = False"
| "isFinite NegInfinity = False"

text \<open>
  \<^verbatim>\<open>function asNumber(v, def = 0) { const n = Number(v); return Number.isFinite(n) ? n : def; }\<close>
  The argument of the model is the value \<^verbatim>\<open>Number(v)\<close>.
\<close>

fun asNumber :: "jsnumber \<Rightarrow> rat \<Rightarrow> rat" where
  "asNumber (Finite r) d = r"
| "asNumber NaN d = d"
| "asNumber PosInfinity d = d"
| "asNumber NegInfinity d = d"

section \<open>Strings\<close>

text \<open>
  Strings are lists of characters (code units). The string methods the action
  calls, each with the JavaScript expression it stands for.
\<close>

abbreviation slash :: char where "slash \<equiv> CHR ''/''"
abbreviation backslash :: char where "backslash \<equiv> CHR 0x5C"

text \<open>\<^verbatim>\<open>s.startsWith(p)\<close>\<close>

definition startsWith :: "string \<Rightarrow> string \<Rightarrow> bool" where
  "startsWith s p = (take (length p) s = p)"

text \<open>\<^verbatim>\<open>s.includes(m)\<close>\<close>

fun includesStr :: "string \<Rightarrow> string \<Rightarrow> bool" where
  "includesStr [] m = (m = [])"
| "includesStr (c # cs) m = (startsWith (c # cs) m \<or> includesStr cs m)"

text \<open>\<^verbatim>\<open>s.lastIndexOf(m)\<close>: the greatest index at which \<open>m\<close> occurs, or \<open>-1\<close>.\<close>

fun lastIndexOf :: "string \<Rightarrow> string \<Rightarrow> int" where
  "lastIndexOf [] m = (if m = [] then 0 else - 1)"
| "lastIndexOf (c # cs) m =
     (let i = lastIndexOf cs m
      in if i \<ge> 0 then i + 1 else if startsWith (c # cs) m then 0 else - 1)"

text \<open>\<^verbatim>\<open>s.replace(/c/g, r)\<close> for a single character \<open>c\<close>.\<close>

definition replaceAll :: "char \<Rightarrow> string \<Rightarrow> string \<Rightarrow> string" where
  "replaceAll c r s = concat (map (\<lambda>x. if x = c then r else [x]) s)"

text \<open>\<^verbatim>\<open>s.replace(/\/+$/, '')\<close>: the trailing run of slashes is removed.\<close>

definition stripTrailingSlashes :: "string \<Rightarrow> string" where
  "stripTrailingSlashes s = rev (dropWhile (\<lambda>c. c = slash) (rev s))"

text \<open>
  \<^verbatim>\<open>path.posix.basename(p)\<close> of Node.js: scanning from the end, trailing slashes
  are skipped and the characters up to the next slash are the result.
\<close>

definition basename :: "string \<Rightarrow> string" where
  "basename p = rev (takeWhile (\<lambda>c. c \<noteq> slash) (dropWhile (\<lambda>c. c = slash) (rev p)))"

section \<open>Path normalizer\<close>

text \<open>\<^verbatim>\<open>filePath.replace(/\\/g, '/')\<close>\<close>

definition sepNorm :: "string \<Rightarrow> string" where
  "sepNorm p = replaceAll backslash ''/'' p"

text \<open>\<^verbatim>\<open>repoRoot.replace(/\\/g, '/').replace(/\/+$/, '')\<close>\<close>

definition rootNorm :: "string \<Rightarrow> string" where
  "rootNorm repoRoot = stripTrailingSlashes (sepNorm repoRoot)"

text \<open>
  \<^verbatim>\<open>normalizeToRepoRel(repoRoot, filePath)\<close>. A falsy \<^verbatim>\<open>filePath\<close> is \<open>None\<close>
  (\<^verbatim>\<open>null\<close>, \<^verbatim>\<open>undefined\<close>) or the empty string; the result \<open>None\<close> is \<^verbatim>\<open>null\<close>.
  \<^verbatim>\<open>norm.slice(i)\<close> with \<open>i \<ge> 0\<close> is \<open>drop i norm\<close>.
\<close>

definition normalizeToRepoRel :: "string \<Rightarrow> string option \<Rightarrow> string option" where
  "normalizeToRepoRel repoRoot filePath =
     (case filePath of
        None \<Rightarrow> None
      | Some fp \<Rightarrow>
          if fp = [] then None
          else
            let norm = sepNorm fp;
                rootN = rootNorm repoRoot
            in if startsWith norm (rootN @ ''/'') then Some (drop (length rootN + 1) norm)
               else
                 let srcIdx = lastIndexOf norm ''/src/''
                 in if srcIdx \<ge> 0 then Some (drop (nat (srcIdx + 1)) norm)
                    else
                      let testsIdx = lastIndexOf norm ''/tests/''
                      in if testsIdx \<ge> 0 then Some (drop (nat (testsIdx + 1)) norm)
                         else Some (basename norm))"

text \<open>
  The four ordered rules in the words of the specification, over a root \<open>rootDir\<close>:
  (1) the separator-normalized path begins with \<open>rootDir\<close> plus a separator: the
  remainder after the root; (2) it contains a segment \<^verbatim>\<open>/src/\<close>: everything from the
  last occurrence of the segment onward, without the leading separator; (3) the
  same for \<^verbatim>\<open>/tests/\<close>; (4) the final path component. An empty or absent path
  has no location.
\<close>

text \<open>Everything of \<open>s\<close> from the last occurrence of \<open>seg\<close> onward.\<close>

fun fromLast :: "string \<Rightarrow> string \<Rightarrow> string" where
  "fromLast seg [] = []"
| "fromLast seg (c # cs) = (if includesStr cs seg then fromLast seg cs else c # cs)"

definition spec_normalize :: "string \<Rightarrow> string option \<Rightarrow> string option" where
  "spec_normalize rootDir candidatePath =
     (case candidatePath of
        None \<Rightarrow> None
      | Some p \<Rightarrow>
          if p = [] then None
          else if startsWith (sepNorm p) (rootDir @ ''/'')
            then Some (drop (length (rootDir @ ''/'')) (sepNorm p))
          else if includesStr (sepNorm p) ''/src/''
            then Some (tl (fromLast ''/src/'' (sepNorm p)))
          else if includesStr (sepNorm p) ''/tests/''
            then Some (tl (fromLast ''/tests/'' (sepNorm p)))
          else Some (basename (sepNorm p)))"

text \<open>A bare file name: not empty and without a separator of either kind.\<close>

definition bareFileName :: "string \<Rightarrow> bool" where
  "bareFileName r = (r \<noteq> [] \<and> slash \<notin> set r \<and> backslash \<notin> set r)"

section \<open>Quality gate\<close>

datatype gateStatus = PASS | FAIL

text \<open>
  The verdict expression, written three times in the source with the same text
  (\<^verbatim>\<open>buildHtmlCodePaintingSummary\<close>, \<^verbatim>\<open>buildSummaryMarkdown\<close>, \<^verbatim>\<open>main\<close>):
  \<^verbatim>\<open>asNumber(metrics.lines.pct, 0) >= threshold ? 'PASS' : 'FAIL'\<close>.
\<close>

definition gate :: "rat \<Rightarrow> rat \<Rightarrow> gateStatus" where
  "gate linePct threshold = (if linePct \<ge> threshold then PASS else FAIL)"



section \<open>Per-line classification\<close>

text \<open>
  A file record as \<^verbatim>\<open>main\<close> builds it. \<^verbatim>\<open>lineHits\<close> is a \<^verbatim>\<open>Map\<close> from line number
  to hit count and \<^verbatim>\<open>failingLines\<close> a \<^verbatim>\<open>Set\<close> of line numbers; the renderers read
  both through \<^verbatim>\<open>?.\<close>, so either may be absent (\<open>None\<close>).
\<close>

record fileCoverage =
  relPath :: string
  sourceLines :: "string list"
  lineHits :: "(rat \<rightharpoonup> rat) option"
  failingLines :: "rat set option"
  fileCoveragePct :: jsnumber

datatype lineStatus = CoveredFail | CoveredPass | Uncovered

text \<open>\<^verbatim>\<open>f.lineHits?.get(lineNo) ?? 0\<close>\<close>

definition hitsAt :: "fileCoverage \<Rightarrow> nat \<Rightarrow> rat" where
  "hitsAt f lineNo =
     (case lineHits f of
        None \<Rightarrow> 0
      | Some m \<Rightarrow> (case m (of_nat lineNo) of None \<Rightarrow> 0 | Some h \<Rightarrow> h))"

text \<open>\<^verbatim>\<open>isCovered && f.failingLines?.has(lineNo)\<close>\<close>

definition isFailAt :: "fileCoverage \<Rightarrow> nat \<Rightarrow> bool" where
  "isFailAt f lineNo =
     (hitsAt f lineNo > 0 \<and>
      (case failingLines f of None \<Rightarrow> False | Some s \<Rightarrow> of_nat lineNo \<in> s))"

text \<open>
  \<^verbatim>\<open>const cls = isFail ? 'covered-fail' : isCovered ? 'covered-pass' : 'uncovered';\<close>
  (\<^verbatim>\<open>buildHtmlReport\<close>; the step summary and the Markdown renderer choose their
  glyph by the same two tests in the same order).
\<close>

definition classify :: "fileCoverage \<Rightarrow> nat \<Rightarrow> lineStatus" where
  "classify f lineNo =
     (let hits = hitsAt f lineNo;
          isCovered = hits > 0;
          isFail = isFailAt f lineNo
      in if isFail then CoveredFail else if isCovered then CoveredPass else Uncovered)"

text \<open>
  The three statuses as the specification words them, over the record's data:
  \<open>n\<close> is in \<^verbatim>\<open>lineHits\<close> with count \<open>h\<close>, \<open>n\<close> is in \<^verbatim>\<open>failingLines\<close>.
\<close>

definition hitCount :: "fileCoverage \<Rightarrow> nat \<Rightarrow> rat option" where
  "hitCount f n = (case lineHits f of None \<Rightarrow> None | Some m \<Rightarrow> m (of_nat n))"

definition inFailing :: "fileCoverage \<Rightarrow> nat \<Rightarrow> bool" where
  "inFailing f n = (case failingLines f of None \<Rightarrow> False | Some s \<Rightarrow> of_nat n \<in> s)"

definition spec_uncovered :: "fileCoverage \<Rightarrow> nat \<Rightarrow> bool" where
  "spec_uncovered f n = (hitCount f n = None \<or> hitCount f n = Some 0)"

definition spec_covered_failing :: "fileCoverage \<Rightarrow> nat \<Rightarrow> bool" where
  "spec_covered_failing f n = ((\<exists>h. hitCount f n = Some h \<and> h > 0) \<and> inFailing f n)"

definition spec_covered_passing :: "fileCoverage \<Rightarrow> nat \<Rightarrow> bool" where
  "spec_covered_passing f n = ((\<exists>h. hitCount f n = Some h \<and> h > 0) \<and> \<not> inFailing f n)"

text \<open>The record invariant of the data model: hit counts are non-negative.\<close>

definition nonNegativeHits :: "fileCoverage \<Rightarrow> bool" where
  "nonNegativeHits f = (\<forall>n h. hitCount f n = Some h \<longrightarrow> 0 \<le> h)"

text \<open>
  The end-to-end scenario of the specification: hits \<open>1 \<mapsto> 1, 2 \<mapsto> 0, 3 \<mapsto> 3\<close>
  and one failure located at line 3.
\<close>

definition exampleFile :: fileCoverage where
  "exampleFile =
     \<lparr> relPath = ''a.js'',
       sourceLines = [''let a = 1;'', ''let b = 2;'', ''f(a);''],
       lineHits = Some [1 \<mapsto> 1, 2 \<mapsto> 0, 3 \<mapsto> 3],
       failingLines = Some {3},
       fileCoveragePct = Finite (6667 / 100) \<rparr>"

section \<open>Coverage trace parser\<close>

abbreviation newline :: char where "newline \<equiv> CHR 0x0A"
abbreviation carriageReturn :: char where "carriageReturn \<equiv> CHR 0x0D"

text \<open>
  \<^verbatim>\<open>lcovText.split(/\r?\n/)\<close>: the text is cut at every line feed, and a carriage
  return right before a line feed belongs to the separator.
\<close>

fun splitLines :: "string \<Rightarrow> string list" where
  "splitLines [] = [[]]"
| "splitLines (c # cs) =
     (if c = newline then [] # splitLines cs
      else if c = carriageReturn \<and> (case cs of [] \<Rightarrow> False | d # _ \<Rightarrow> d = newline)
        then splitLines cs
      else (case splitLines cs of [] \<Rightarrow> [[c]] | l # ls \<Rightarrow> (c # l) # ls))"

text \<open>\<^verbatim>\<open>s.split(sep)\<close> for a single character \<open>sep\<close>.\<close>

fun splitOn :: "char \<Rightarrow> string \<Rightarrow> string list" where
  "splitOn sep [] = [[]]"
| "splitOn sep (c # cs) =
     (if c = sep then [] # splitOn sep cs
      else (case splitOn sep cs of [] \<Rightarrow> [[c]] | l # ls \<Rightarrow> (c # l) # ls))"

text \<open>
  \<^verbatim>\<open>s.trim()\<close>: white space and line terminators are removed at both ends (the
  ones a one-byte character can be).
\<close>

definition isWhiteSpace :: "char \<Rightarrow> bool" where
  "isWhiteSpace c =
     (c \<in> {CHR 0x09, CHR 0x0A, CHR 0x0B, CHR 0x0C, CHR 0x0D, CHR 0x20, CHR 0xA0})"

definition trim :: "string \<Rightarrow> string" where
  "trim s = rev (dropWhile isWhiteSpace (rev (dropWhile isWhiteSpace s)))"

text \<open>
  The parser's state. A JavaScript \<^verbatim>\<open>Map\<close> keeps its keys in insertion order and
  \<^verbatim>\<open>set\<close> on a present key keeps the key's place, as \<open>AList.update\<close> does on an
  association list. The outer keys are the normalizer's results, so \<^verbatim>\<open>null\<close>
  (\<open>None\<close>) can be a key. \<^verbatim>\<open>currentLines\<close> is \<^verbatim>\<open>null\<close> or a reference to the inner
  \<^verbatim>\<open>Map\<close> stored under a key of \<^verbatim>\<open>fileLineHits\<close>: the model keeps that key, and a
  write through the reference is a write to the entry of the outer map.
\<close>

type_synonym lineMap = "(rat \<times> rat) list"
type_synonym fileMap = "(string option \<times> lineMap) list"

record lcovState =
  fileLineHits :: fileMap
  currentFile :: "string option"
  currentLines :: "string option option"

definition initialLcovState :: lcovState where
  "initialLcovState = \<lparr> fileLineHits = [], currentFile = None, currentLines = None \<rparr>"

text \<open>Truthiness of \<^verbatim>\<open>currentFile\<close>: neither \<^verbatim>\<open>null\<close> nor the empty string.\<close>

definition truthy :: "string option \<Rightarrow> bool" where
  "truthy v = (case v of None \<Rightarrow> False | Some x \<Rightarrow> x \<noteq> [])"

text \<open>
  The two numbers of a \<^verbatim>\<open>DA:\<close> line:
  \<^verbatim>\<open>const [lineStr, hitsStr] = raw.slice(3).split(','); Number(lineStr); Number(hitsStr)\<close>.
  \<open>toNumber\<close> is JavaScript's \<^verbatim>\<open>Number\<close> on strings; a missing second field is
  \<^verbatim>\<open>undefined\<close>, whose number is \<^verbatim>\<open>NaN\<close>.
\<close>

definition daFields :: "(string \<Rightarrow> jsnumber) \<Rightarrow> string \<Rightarrow> jsnumber \<times> jsnumber" where
  "daFields toNumber raw =
     (let rest = drop 3 raw;
          parts = splitOn (CHR '','') rest;
          lineNo = (case parts of [] \<Rightarrow> NaN | lineStr # _ \<Rightarrow> toNumber lineStr);
          hits = (case parts of _ # hitsStr # _ \<Rightarrow> toNumber hitsStr | _ \<Rightarrow> NaN)
      in (lineNo, hits))"

text \<open>One turn of the loop \<^verbatim>\<open>for (const raw of lines)\<close> of \<^verbatim>\<open>parseLcov\<close>.\<close>

definition lcovStep ::
  "(string \<Rightarrow> jsnumber) \<Rightarrow> string \<Rightarrow> lcovState \<Rightarrow> string \<Rightarrow> lcovState" where
  "lcovStep toNumber repoRoot st raw =
     (if startsWith raw ''SF:'' then
        let sf = trim (drop 3 raw);
            rel = normalizeToRepoRel repoRoot (Some sf)
        in st\<lparr> currentFile := rel,
               fileLineHits :=
                 (if rel \<in> set (map fst (fileLineHits st)) then fileLineHits st
                  else fileLineHits st @ [(rel, [])]),
               currentLines := Some rel \<rparr>
      else if startsWith raw ''DA:'' \<and> truthy (currentFile st) \<and> currentLines st \<noteq> None then
        (case (currentLines st, daFields toNumber raw) of
           (Some key, Finite lineNo, Finite hits) \<Rightarrow>
             st\<lparr> fileLineHits :=
                   AList.map_entry key (AList.update lineNo hits) (fileLineHits st) \<rparr>
         | _ \<Rightarrow> st)
      else if raw = ''end_of_record'' then st\<lparr> currentFile := None, currentLines := None \<rparr>
      else st)"

definition parseLines :: "(string \<Rightarrow> jsnumber) \<Rightarrow> string \<Rightarrow> string list \<Rightarrow> fileMap" where
  "parseLines toNumber repoRoot ls =
     fileLineHits (foldl (lcovStep toNumber repoRoot) initialLcovState ls)"

definition parseLcov :: "(string \<Rightarrow> jsnumber) \<Rightarrow> string \<Rightarrow> string \<Rightarrow> fileMap" where
  "parseLcov toNumber lcovText repoRoot = parseLines toNumber repoRoot (splitLines lcovText)"

text \<open>
  A line-data record whose line number or hit count does not parse as a finite
  number.
\<close>

definition malformedData :: "(string \<Rightarrow> jsnumber) \<Rightarrow> string \<Rightarrow> bool" where
  "malformedData toNumber raw =
     (startsWith raw ''DA:'' \<and>
      \<not> (isFinite (fst (daFields toNumber raw)) \<and> isFinite (snd (daFields toNumber raw))))"

text \<open>
  The trace without its orphan records: a line-data record is dropped when no file
  section is open, that is before the first source-file line, or after an
  end-of-record marker and before the next source-file line. \<open>opn\<close> tells whether
  a section is open at the head of the list.
\<close>

fun dropOrphans :: "bool \<Rightarrow> string list \<Rightarrow> string list" where
  "dropOrphans opn [] = []"
| "dropOrphans opn (l # ls) =
     (if startsWith l ''SF:'' then l # dropOrphans True ls
      else if l = ''end_of_record'' then l # dropOrphans False ls
      else if startsWith l ''DA:'' \<and> \<not> opn then dropOrphans opn ls
      else l # dropOrphans opn ls)"

text \<open>
  For evaluating examples: \<^verbatim>\<open>Number\<close> on strings of decimal digits (the empty
  string is 0); every other string of the examples below is not numeric.
\<close>

fun decimalValue :: "nat \<Rightarrow> string \<Rightarrow> nat option" where
  "decimalValue acc [] = Some acc"
| "decimalValue acc (c # cs) =
     (if 48 \<le> (of_char c :: nat) \<and> (of_char c :: nat) \<le> 57
      then decimalValue (10 * acc + (of_char c - 48)) cs else None)"

definition decimalNumber :: "string \<Rightarrow> jsnumber" where
  "decimalNumber s = (case decimalValue 0 s of None \<Rightarrow> NaN | Some n \<Rightarrow> Finite (of_nat n))"

text \<open>\<^verbatim>\<open>lines.join('\n')\<close>\<close>

fun joinLines :: "string list \<Rightarrow> string" where
  "joinLines [] = []"
| "joinLines [l] = l"
| "joinLines (l # ls) = l @ [newline] @ joinLines ls"

definition exampleTrace :: string where
  "exampleTrace = joinLines
     [''DA:9,9'', ''SF:/repo/src/a.js'', ''DA:1,1'', ''DA:x,5'', ''DA:2,0'', ''DA:3,3'',
      ''end_of_record'', ''DA:7,7'', []]"

text \<open>The example trace without its malformed record, and without its orphan records.\<close>

definition exampleTraceRepaired :: string where
  "exampleTraceRepaired = joinLines
     [''DA:9,9'', ''SF:/repo/src/a.js'', ''DA:1,1'', ''DA:2,0'', ''DA:3,3'',
      ''end_of_record'', ''DA:7,7'', []]"

definition exampleTraceNoOrphans :: string where
  "exampleTraceNoOrphans = joinLines
     [''SF:/repo/src/a.js'', ''DA:1,1'', ''DA:x,5'', ''DA:2,0'', ''DA:3,3'',
      ''end_of_record'', []]"

section \<open>Coverage summary reader\<close>

text \<open>
  A value of \<^verbatim>\<open>JSON.parse\<close>. An object is the list of its own properties in
  property order (keys distinct).
\<close>

datatype json =
  JNull | JBool bool | JNum jsnumber | JStr string | JArr "json list"
  | JObj "(string \<times> json) list"

text \<open>
  A property read \<^verbatim>\<open>v.name\<close> on a value other than \<^verbatim>\<open>null\<close>, for the names the
  action reads (\<^verbatim>\<open>total\<close>, \<^verbatim>\<open>lines\<close>, \<^verbatim>\<open>branches\<close>, \<^verbatim>\<open>functions\<close>,
  \<^verbatim>\<open>statements\<close>, \<^verbatim>\<open>pct\<close>, \<^verbatim>\<open>covered\<close>), none of which a primitive or an array
  defines. \<open>None\<close> is \<^verbatim>\<open>undefined\<close>.
\<close>

fun getProp :: "json \<Rightarrow> string \<Rightarrow> json option" where
  "getProp (JObj kvs) name = map_of kvs name"
| "getProp JNull name = None"
| "getProp (JBool b) name = None"
| "getProp (JNum n) name = None"
| "getProp (JStr s) name = None"
| "getProp (JArr xs) name = None"

text \<open>Truthiness of a value that may be \<^verbatim>\<open>undefined\<close>.\<close>

fun truthyJson :: "json option \<Rightarrow> bool" where
  "truthyJson None = False"
| "truthyJson (Some JNull) = False"
| "truthyJson (Some (JBool b)) = b"
| "truthyJson (Some (JNum n)) = (n \<noteq> Finite 0 \<and> n \<noteq> NaN)"
| "truthyJson (Some (JStr s)) = (s \<noteq> [])"
| "truthyJson (Some (JArr xs)) = True"
| "truthyJson (Some (JObj kvs)) = True"

text \<open>\<^verbatim>\<open>v || {}\<close>\<close>

definition orEmptyObject :: "json option \<Rightarrow> json" where
  "orEmptyObject v =
     (case v of None \<Rightarrow> JObj [] | Some x \<Rightarrow> if truthyJson (Some x) then x else JObj [])"

text \<open>Decimal digits of an index, for the keys of \<^verbatim>\<open>Object.entries\<close>.\<close>

function showNat :: "nat \<Rightarrow> string" where
  "showNat n =
     (if n < 10 then [char_of (48 + n)]
      else showNat (n div 10) @ [char_of (48 + n mod 10)])"
  by pat_completeness auto
termination
  by (relation "measure id") auto

text \<open>\<^verbatim>\<open>Object.entries(v)\<close> for a value other than \<^verbatim>\<open>null\<close>.\<close>

fun entries :: "json \<Rightarrow> (string \<times> json) list" where
  "entries (JObj kvs) = kvs"
| "entries (JArr xs) = zip (map showNat [0..<length xs]) xs"
| "entries (JStr s) = zip (map showNat [0..<length s]) (map (\<lambda>c. JStr [c]) s)"
| "entries JNull = []"
| "entries (JBool b) = []"
| "entries (JNum n) = []"

record summaryMetrics =
  lines :: json
  branches :: json
  functionsMetric :: json
  statements :: json

text \<open>
  The object \<^verbatim>\<open>{ metrics, perFile, raw }\<close>. \<open>perFile\<close> is the list of the own
  properties of that object and \<open>perFileProto\<close> its prototype: \<open>None\<close> for the
  prototype every object literal has, \<open>Some v\<close> when it has been set to \<open>v\<close>.
\<close>

record coverageSummary =
  metrics :: summaryMetrics
  perFile :: "(string \<times> json) list"
  perFileProto :: "json option"
  rawDoc :: json

datatype summaryError = ReadOrParseError | TypeError

text \<open>
  \<^verbatim>\<open>perFile[k] = v\<close> on the object literal \<^verbatim>\<open>perFile\<close> adds the property \<^verbatim>\<open>k\<close>, but
  for the key \<^verbatim>\<open>__proto__\<close>, which \<^verbatim>\<open>JSON.parse\<close> creates as an own property of the
  document: the assignment then adds no property; it sets the prototype of
  \<^verbatim>\<open>perFile\<close> when \<^verbatim>\<open>v\<close> is an object or \<^verbatim>\<open>null\<close>, and does nothing otherwise.
\<close>

fun isObjectOrNull :: "json \<Rightarrow> bool" where
  "isObjectOrNull (JObj kvs) = True"
| "isObjectOrNull (JArr xs) = True"
| "isObjectOrNull JNull = True"
| "isObjectOrNull (JBool b) = False"
| "isObjectOrNull (JNum n) = False"
| "isObjectOrNull (JStr s) = False"

definition assignedProto :: "(string \<times> json) list \<Rightarrow> json option" where
  "assignedProto kvs =
     (case map_of kvs ''__proto__'' of
        None \<Rightarrow> None
      | Some v \<Rightarrow> if isObjectOrNull v then Some v else None)"

definition assignedProperties :: "(string \<times> json) list \<Rightarrow> (string \<times> json) list" where
  "assignedProperties kvs = filter (\<lambda>(k, v). k \<noteq> ''__proto__'') kvs"

text \<open>\<^verbatim>\<open>const total = raw.total || {};\<close>\<close>

definition totalOf :: "json \<Rightarrow> json" where
  "totalOf doc = orEmptyObject (getProp doc ''total'')"

text \<open>
  \<^verbatim>\<open>readCoverageSummary(summaryPath)\<close>. The argument is the outcome of
  \<^verbatim>\<open>JSON.parse(readText(summaryPath))\<close>: \<open>None\<close> when reading or parsing throws.
  Reading \<^verbatim>\<open>raw.total\<close> of \<^verbatim>\<open>null\<close> throws a \<^verbatim>\<open>TypeError\<close>.
\<close>

definition readCoverageSummary :: "json option \<Rightarrow> summaryError + coverageSummary" where
  "readCoverageSummary parsed =
     (case parsed of
        None \<Rightarrow> Inl ReadOrParseError
      | Some JNull \<Rightarrow> Inl TypeError
      | Some doc \<Rightarrow>
          let total = totalOf doc;
              m = \<lparr> lines = orEmptyObject (getProp total ''lines''),
                    branches = orEmptyObject (getProp total ''branches''),
                    functionsMetric = orEmptyObject (getProp total ''functions''),
                    statements = orEmptyObject (getProp total ''statements'') \<rparr>;
              kept = filter (\<lambda>(k, v). k \<noteq> ''total'') (entries doc)
          in Inr \<lparr> metrics = m,
                   perFile = assignedProperties kept,
                   perFileProto = assignedProto kept,
                   rawDoc = doc \<rparr>)"

text \<open>
  How the renderers read a metric. \<^verbatim>\<open>Number(v)\<close> is \<^verbatim>\<open>NaN\<close> for \<^verbatim>\<open>undefined\<close>; on
  the other values it is the parameter \<open>conv\<close>.
\<close>

definition jsNumberOf :: "(json \<Rightarrow> jsnumber) \<Rightarrow> json option \<Rightarrow> jsnumber" where
  "jsNumberOf conv v = (case v of None \<Rightarrow> NaN | Some x \<Rightarrow> conv x)"

text \<open>\<^verbatim>\<open>asNumber(m.pct, 0)\<close>\<close>

definition pctRead :: "(json \<Rightarrow> jsnumber) \<Rightarrow> json \<Rightarrow> rat" where
  "pctRead conv m = asNumber (jsNumberOf conv (getProp m ''pct'')) 0"

text \<open>\<^verbatim>\<open>m.covered ?? 0\<close> and \<^verbatim>\<open>m.total ?? 0\<close>\<close>

definition countRead :: "json \<Rightarrow> string \<Rightarrow> json" where
  "countRead m name =
     (case getProp m name of None \<Rightarrow> JNum (Finite 0) | Some JNull \<Rightarrow> JNum (Finite 0)
      | Some x \<Rightarrow> x)"

definition readsAsZero :: "(json \<Rightarrow> jsnumber) \<Rightarrow> json \<Rightarrow> bool" where
  "readsAsZero conv m =
     (pctRead conv m = 0 \<and> countRead m ''covered'' = JNum (Finite 0)
      \<and> countRead m ''total'' = JNum (Finite 0))"

text \<open>
  An all-zero metric in the words of the specification: the fields covered, total
  and percentage are there and are 0.
\<close>

definition spec_allZero :: "json \<Rightarrow> bool" where
  "spec_allZero m =
     (getProp m ''covered'' = Some (JNum (Finite 0))
      \<and> getProp m ''total'' = Some (JNum (Finite 0))
      \<and> getProp m ''pct'' = Some (JNum (Finite 0)))"

text \<open>A summary whose total record has no \<^verbatim>\<open>lines\<close> entry.\<close>

definition exampleSummary :: json where
  "exampleSummary =
     JObj [(''total'',
            JObj [(''branches'',
                   JObj [(''total'', JNum (Finite 4)), (''covered'', JNum (Finite 3)),
                         (''pct'', JNum (Finite 75))])])]"

text \<open>The \<^verbatim>\<open>lines\<close> metric of the value returned for a document.\<close>

definition returnedLines :: "json \<Rightarrow> json option" where
  "returnedLines doc =
     (case readCoverageSummary (Some doc) of Inl e \<Rightarrow> None | Inr res \<Rightarrow> Some (lines (metrics res)))"

section \<open>Comment synchronizer\<close>

text \<open>
  The comments of the target pull request as the remote service holds them,
  oldest first, and the identifier the service gives to the next comment it
  creates. A body that is not a string is \<open>None\<close>.
\<close>

record comment =
  commentId :: nat
  commentBody :: "string option"

text \<open>
  What \<^verbatim>\<open>githubApi\<close> throws: \<^verbatim>\<open>GitHub API error ${res.status} ...\<close> on a response
  that is not ok, or what \<^verbatim>\<open>fetch\<close> throws when no response arrives.
\<close>

datatype apiError = ApiError nat | FetchError

text \<open>
  \<open>refusals\<close> lists how the requests to come end, in order: \<open>None\<close> for a response
  that is ok, \<open>Some e\<close> for a request that ends with the error \<open>e\<close>; past the end of
  the list every response is ok.
\<close>

record remote =
  comments :: "comment list"
  nextId :: nat
  refusals :: "apiError option list"

text \<open>
  The outcome of a call: the value returned or the error thrown, and the state of
  the service after it. An error does not undo the requests answered before it.
\<close>

type_synonym 'a outcome = "(apiError + 'a) \<times> remote"

text \<open>How the next request ends, and the service with that answer consumed.\<close>

definition respond :: "remote \<Rightarrow> apiError option \<times> remote" where
  "respond r =
     (case refusals r of [] \<Rightarrow> (None, r) | a # rest \<Rightarrow> (a, r\<lparr> refusals := rest \<rparr>))"

text \<open>
  The four requests \<^verbatim>\<open>upsertPrComment\<close> sends through \<^verbatim>\<open>githubApi\<close>; a request that
  ends with an error changes nothing.
  \<^verbatim>\<open>GET .../issues/{pr}/comments?per_page=100\<close> is sent once: it returns the first
  page, at most 100 comments.
\<close>

definition firstPage :: "remote \<Rightarrow> comment list" where
  "firstPage r = take 100 (comments r)"

definition apiList :: "remote \<Rightarrow> comment list outcome" where
  "apiList r =
     (case respond r of
        (Some err, r') \<Rightarrow> (Inl err, r')
      | (None, r') \<Rightarrow> (Inr (firstPage r'), r'))"

text \<open>\<^verbatim>\<open>POST .../issues/{pr}/comments\<close> with \<^verbatim>\<open>{ body }\<close>\<close>

definition apiCreate :: "string \<Rightarrow> remote \<Rightarrow> unit outcome" where
  "apiCreate body r =
     (case respond r of
        (Some err, r') \<Rightarrow> (Inl err, r')
      | (None, r') \<Rightarrow>
          (Inr (),
           r'\<lparr> comments := comments r' @ [\<lparr> commentId = nextId r', commentBody = Some body \<rparr>],
               nextId := Suc (nextId r') \<rparr>))"

text \<open>\<^verbatim>\<open>DELETE .../issues/comments/{id}\<close>; an unknown identifier is answered 404.\<close>

definition apiDelete :: "nat \<Rightarrow> remote \<Rightarrow> unit outcome" where
  "apiDelete i r =
     (case respond r of
        (Some err, r') \<Rightarrow> (Inl err, r')
      | (None, r') \<Rightarrow>
          if i \<in> set (map commentId (comments r'))
          then (Inr (), r'\<lparr> comments := filter (\<lambda>c. commentId c \<noteq> i) (comments r') \<rparr>)
          else (Inl (ApiError 404), r'))"

text \<open>\<^verbatim>\<open>PATCH .../issues/comments/{id}\<close> with \<^verbatim>\<open>{ body }\<close>\<close>

definition apiUpdate :: "nat \<Rightarrow> string \<Rightarrow> remote \<Rightarrow> unit outcome" where
  "apiUpdate i body r =
     (case respond r of
        (Some err, r') \<Rightarrow> (Inl err, r')
      | (None, r') \<Rightarrow>
          if i \<in> set (map commentId (comments r'))
          then (Inr (),
                r'\<lparr> comments :=
                      map (\<lambda>c. if commentId c = i then c\<lparr> commentBody := Some body \<rparr> else c)
                        (comments r') \<rparr>)
          else (Inl (ApiError 404), r'))"

text \<open>\<^verbatim>\<open>typeof c.body === 'string' && c.body.includes(marker)\<close>\<close>

definition hasMarker :: "string \<Rightarrow> comment \<Rightarrow> bool" where
  "hasMarker marker c =
     (case commentBody c of None \<Rightarrow> False | Some b \<Rightarrow> includesStr b marker)"

text \<open>
  \<^verbatim>\<open>upsertPrComment({ token, owner, repo, prNumber, strategy, marker, body })\<close> on
  the comments of that pull request. An error thrown by a request ends the call.
  The first test of the source, \<^verbatim>\<open>strategy === 'ADD' || !existing\<close>, is the case
  \<open>None\<close> and the first test of the case \<open>Some\<close>.
\<close>

definition upsertPrComment :: "string \<Rightarrow> string \<Rightarrow> string \<Rightarrow> remote \<Rightarrow> unit outcome" where
  "upsertPrComment strategy marker body r =
     (case apiList r of
        (Inl err, r1) \<Rightarrow> (Inl err, r1)
      | (Inr cs, r1) \<Rightarrow>
          (case find (hasMarker marker) cs of
             None \<Rightarrow> apiCreate body r1
           | Some e \<Rightarrow>
               if strategy = ''ADD'' then apiCreate body r1
               else if strategy = ''REMOVE'' then
                 (case apiDelete (commentId e) r1 of
                    (Inl err, r2) \<Rightarrow> (Inl err, r2)
                  | (Inr u, r2) \<Rightarrow> apiCreate body r2)
               else apiUpdate (commentId e) body r1))"

text \<open>
  Two runs in succession with the same strategy and marker: the outcome of the
  first, the outcome of the second, and the service after both.
\<close>

definition upsertTwice ::
  "string \<Rightarrow> string \<Rightarrow> string \<Rightarrow> string \<Rightarrow> remote
     \<Rightarrow> (apiError + unit) \<times> (apiError + unit) \<times> remote" where
  "upsertTwice strategy marker body1 body2 r =
     (case upsertPrComment strategy marker body1 r of
        (o1, r1) \<Rightarrow>
          (case upsertPrComment strategy marker body2 r1 of (o2, r2) \<Rightarrow> (o1, o2, r2)))"

text \<open>The comments of the pull request whose body contains the marker.\<close>

definition markedComments :: "string \<Rightarrow> remote \<Rightarrow> comment list" where
  "markedComments marker r = filter (hasMarker marker) (comments r)"

text \<open>
  The service gives every comment an identifier of its own: the identifiers are
  distinct and the next one is fresh.
\<close>

definition wellFormed :: "remote \<Rightarrow> bool" where
  "wellFormed r =
     (distinct (map commentId (comments r))
      \<and> (\<forall>c \<in> set (comments r). commentId c < nextId r))"

text \<open>The next \<open>n\<close> requests are answered ok.\<close>

definition answersOk :: "nat \<Rightarrow> remote \<Rightarrow> bool" where
  "answersOk n r = (\<forall>a \<in> set (take n (refusals r)). a = None)"

text \<open>
  The single listing sees the marked comment, or sees every comment: the marked
  comment is on the first page, or the pull request has fewer than 100 comments.
\<close>

definition firstPageSuffices :: "string \<Rightarrow> remote \<Rightarrow> bool" where
  "firstPageSuffices marker r =
     (find (hasMarker marker) (firstPage r) \<noteq> None \<or> length (comments r) < 100)"

text \<open>The marker \<^verbatim>\<open>main\<close> passes, and example states of the service.\<close>

definition actionMarker :: string where
  "actionMarker = ''<!-- code-painting-action -->''"

definition markedBody :: "string \<Rightarrow> string" where
  "markedBody summaryMd = actionMarker @ [newline] @ summaryMd"

definition oneMarked :: remote where
  "oneMarked =
     \<lparr> comments = [\<lparr> commentId = 7, commentBody = Some ''looks good'' \<rparr>,
                   \<lparr> commentId = 9, commentBody = Some (markedBody ''old'') \<rparr>],
       nextId = 12,
       refusals = [] \<rparr>"

definition twoMarked :: remote where
  "twoMarked =
     \<lparr> comments = [\<lparr> commentId = 3, commentBody = Some (markedBody ''first'') \<rparr>,
                   \<lparr> commentId = 4, commentBody = Some (markedBody ''second'') \<rparr>],
       nextId = 5,
       refusals = [] \<rparr>"

definition hundredPlain :: "comment list" where
  "hundredPlain = map (\<lambda>i. \<lparr> commentId = i, commentBody = Some ''ok'' \<rparr>) [0..<100]"

definition fullPage :: remote where
  "fullPage = \<lparr> comments = hundredPlain, nextId = 100, refusals = [] \<rparr>"


text \<open>
  The service of \<open>oneMarked\<close> when it refuses the third request with status 500,
  and when it refuses the fourth with status 502.
\<close>

definition refusesThird :: remote where
  "refusesThird = oneMarked\<lparr> refusals := [None, None, Some (ApiError 500)] \<rparr>"

definition refusesFourth :: remote where
  "refusesFourth = oneMarked\<lparr> refusals := [None, None, None, Some (ApiError 502)] \<rparr>"

section \<open>HTML rendering\<close>

abbreviation doubleQuote :: char where "doubleQuote \<equiv> CHR 0x22"
abbreviation singleQuote :: char where "singleQuote \<equiv> CHR 0x27"

text \<open>
  \<^verbatim>\<open>escapeHtml(s)\<close>: five global replacements, one after the other, the ampersand
  first.
\<close>

definition escapeHtml :: "string \<Rightarrow> string" where
  "escapeHtml s =
     replaceAll singleQuote ''&#39;''
       (replaceAll doubleQuote ''&quot;''
          (replaceAll (CHR ''>'') ''&gt;''
             (replaceAll (CHR ''<'') ''&lt;''
                (replaceAll (CHR ''&'') ''&amp;'' s))))"

text \<open>The five reserved characters and the five entities that replace them.\<close>

definition reservedChars :: "char set" where
  "reservedChars = {CHR ''&'', CHR ''<'', CHR ''>'', doubleQuote, singleQuote}"

definition entities :: "string list" where
  "entities = [''&amp;'', ''&lt;'', ''&gt;'', ''&quot;'', ''&#39;'']"

text \<open>
  Text in which a reserved character stands only inside an entity: a sequence of
  characters that are not reserved and of entities.
\<close>

inductive escapedText :: "string \<Rightarrow> bool" where
  escaped_empty: "escapedText []"
| escaped_plain: "c \<notin> reservedChars \<Longrightarrow> escapedText s \<Longrightarrow> escapedText (c # s)"
| escaped_entity: "e \<in> set entities \<Longrightarrow> escapedText s \<Longrightarrow> escapedText (e @ s)"

text \<open>The class of a row in \<^verbatim>\<open>buildHtmlReport\<close>.\<close>

fun statusClass :: "lineStatus \<Rightarrow> string" where
  "statusClass CoveredFail = ''covered-fail''"
| "statusClass CoveredPass = ''covered-pass''"
| "statusClass Uncovered = ''uncovered''"

definition spaces :: "nat \<Rightarrow> string" where
  "spaces n = replicate n (CHR '' '')"

text \<open>
  \<^verbatim>\<open>const hitsBadge = isCovered ? `<span class="hits">hits:${hits}</span>` : '';\<close>
  \<open>showNumber\<close> is the string JavaScript gives a number in a template.
\<close>

definition hitsBadge :: "(rat \<Rightarrow> string) \<Rightarrow> fileCoverage \<Rightarrow> nat \<Rightarrow> string" where
  "hitsBadge showNumber f lineNo =
     (if hitsAt f lineNo > 0
      then ''<span class='' @ [doubleQuote] @ ''hits'' @ [doubleQuote] @ ''>hits:''
             @ showNumber (hitsAt f lineNo) @ ''</span>''
      else [])"

text \<open>
  The row of source line \<open>line\<close> at index \<open>i\<close> (\<^verbatim>\<open>f.sourceLines.map((line, i) => ...)\<close>
  in \<^verbatim>\<open>buildHtmlReport\<close>): the template literal with its line breaks and
  indentation, trimmed.
\<close>

definition htmlRow :: "(rat \<Rightarrow> string) \<Rightarrow> fileCoverage \<Rightarrow> nat \<Rightarrow> string \<Rightarrow> string" where
  "htmlRow showNumber f i line =
     (let lineNo = i + 1;
          cls = statusClass (classify f lineNo)
      in trim
           ([newline] @ spaces 12 @ ''<div class='' @ [doubleQuote] @ ''row '' @ cls
              @ [doubleQuote] @ ''>''
            @ [newline] @ spaces 14 @ ''<span class='' @ [doubleQuote] @ ''ln'' @ [doubleQuote]
              @ ''>'' @ showNat lineNo @ ''</span>''
            @ [newline] @ spaces 14 @ ''<span class='' @ [doubleQuote] @ ''code''
              @ [doubleQuote] @ ''>'' @ escapeHtml line @ ''</span>''
            @ [newline] @ spaces 14 @ hitsBadge showNumber f lineNo
            @ [newline] @ spaces 12 @ ''</div>''
            @ [newline] @ spaces 10))"

text \<open>\<^verbatim>\<open>const rows = f.sourceLines.map(...).join('\n');\<close>\<close>

definition htmlRows :: "(rat \<Rightarrow> string) \<Rightarrow> fileCoverage \<Rightarrow> string" where
  "htmlRows showNumber f =
     joinLines (map (\<lambda>(i, line). htmlRow showNumber f i line)
                  (zip [0..<length (sourceLines f)] (sourceLines f)))"

text \<open>What the five replacements make of one character.\<close>

definition escapeChar :: "char \<Rightarrow> string" where
  "escapeChar c =
     (if c = CHR ''&'' then ''&amp;''
      else if c = CHR ''<'' then ''&lt;''
      else if c = CHR ''>'' then ''&gt;''
      else if c = doubleQuote then ''&quot;''
      else if c = singleQuote then ''&#39;''
      else [c])"

text \<open>The text of a row before and after the escaped source line.\<close>

definition rowBefore :: "fileCoverage \<Rightarrow> nat \<Rightarrow> string" where
  "rowBefore f i =
     ''<div class='' @ [doubleQuote] @ ''row '' @ statusClass (classify f (i + 1))
       @ [doubleQuote] @ ''>''
     @ [newline] @ spaces 14 @ ''<span class='' @ [doubleQuote] @ ''ln'' @ [doubleQuote]
       @ ''>'' @ showNat (i + 1) @ ''</span>''
     @ [newline] @ spaces 14 @ ''<span class='' @ [doubleQuote] @ ''code''
       @ [doubleQuote] @ ''>''"

definition rowAfter :: "(rat \<Rightarrow> string) \<Rightarrow> fileCoverage \<Rightarrow> nat \<Rightarrow> string" where
  "rowAfter showNumber f i =
     ''</span>'' @ [newline] @ spaces 14 @ hitsBadge showNumber f (i + 1)
       @ [newline] @ spaces 12 @ ''</div>''"

text \<open>A source line with the five reserved characters, and its escaped form.\<close>

definition exampleSource :: string where
  "exampleSource = ''if (a<b && c>d) s='' @ [doubleQuote] @ ''it'' @ [singleQuote] @ ''s''
     @ [doubleQuote]"

definition exampleEscaped :: string where
  "exampleEscaped = ''if (a&lt;b &amp;&amp; c&gt;d) s=&quot;it&#39;s&quot;''"

text \<open>
  The rest of \<^verbatim>\<open>buildHtmlReport\<close>. \<open>toFixed2\<close> is \<^verbatim>\<open>n.toFixed(2)\<close>; a character
  outside ASCII is written as the bytes of its UTF-8 form.
\<close>

definition quoted :: "string \<Rightarrow> string" where
  "quoted v = [doubleQuote] @ v @ [doubleQuote]"

definition emDash :: string where
  "emDash = [CHR 0xE2, CHR 0x80, CHR 0x94]"

text \<open>\<^verbatim>\<open>function pctStr(n) { if (!Number.isFinite(n)) return '0.00'; return n.toFixed(2); }\<close>\<close>

definition pctStr :: "(rat \<Rightarrow> string) \<Rightarrow> jsnumber \<Rightarrow> string" where
  "pctStr toFixed2 n = (case n of Finite r \<Rightarrow> toFixed2 r | _ \<Rightarrow> ''0.00'')"

text \<open>One \<^verbatim>\<open><option>\<close> of the file selector; \<^verbatim>\<open>fileOptions\<close> joins them with \<^verbatim>\<open>''\<close>.\<close>

definition fileOption :: "(rat \<Rightarrow> string) \<Rightarrow> nat \<Rightarrow> fileCoverage \<Rightarrow> string" where
  "fileOption toFixed2 idx f =
     ''<option value='' @ quoted (escapeHtml (relPath f))
       @ (if idx = 0 then '' selected'' else []) @ ''>''
       @ escapeHtml (relPath f)
       @ (if isFinite (fileCoveragePct f)
          then '' '' @ emDash @ '' '' @ pctStr toFixed2 (fileCoveragePct f) @ ''%''
          else [])
       @ ''</option>''"

definition fileOptions :: "(rat \<Rightarrow> string) \<Rightarrow> fileCoverage list \<Rightarrow> string" where
  "fileOptions toFixed2 files =
     concat (map (\<lambda>(idx, f). fileOption toFixed2 idx f) (zip [0..<length files] files))"

text \<open>One \<^verbatim>\<open><section>\<close>: the template literal around the rows, trimmed.\<close>

definition fileSection ::
  "(rat \<Rightarrow> string) \<Rightarrow> (rat \<Rightarrow> string) \<Rightarrow> nat \<Rightarrow> fileCoverage \<Rightarrow> string" where
  "fileSection showNumber toFixed2 idx f =
     trim
       ([newline] @ spaces 8 @ ''<section class='' @ quoted ''file''
          @ '' data-file='' @ quoted (escapeHtml (relPath f))
          @ '' style='' @ quoted (''display:'' @ (if idx = 0 then ''block'' else ''none''))
          @ ''>''
        @ [newline] @ spaces 10 @ ''<div class='' @ quoted ''fileHeader'' @ ''>''
        @ [newline] @ spaces 12 @ ''<div class='' @ quoted ''filePath'' @ ''>''
          @ escapeHtml (relPath f) @ ''</div>''
        @ [newline] @ spaces 12 @ ''<div class='' @ quoted ''fileMeta'' @ ''>''
        @ [newline] @ spaces 14
          @ (if isFinite (fileCoveragePct f)
             then ''<span class='' @ quoted ''pill'' @ ''>line coverage: ''
                    @ pctStr toFixed2 (fileCoveragePct f) @ ''%</span>''
             else [])
        @ [newline] @ spaces 12 @ ''</div>''
        @ [newline] @ spaces 10 @ ''</div>''
        @ [newline] @ spaces 10 @ ''<div class='' @ quoted ''codePane''
          @ '' role='' @ quoted ''region'' @ '' aria-label='' @ quoted ''painted code'' @ ''>''
        @ [newline] @ spaces 12 @ htmlRows showNumber f
        @ [newline] @ spaces 10 @ ''</div>''
        @ [newline] @ spaces 8 @ ''</section>''
        @ [newline] @ spaces 6)"

definition fileSections ::
  "(rat \<Rightarrow> string) \<Rightarrow> (rat \<Rightarrow> string) \<Rightarrow> fileCoverage list \<Rightarrow> string" where
  "fileSections showNumber toFixed2 files =
     joinLines (map (\<lambda>(idx, f). fileSection showNumber toFixed2 idx f)
                  (zip [0..<length files] files))"

text \<open>
  The static text of the page template, which no argument reaches: up to
  \<^verbatim>\<open><title>\<close>; from \<^verbatim>\<open></title>\<close> over the style sheet to \<^verbatim>\<open><div class="title">\<close>;
  from there to the opening of \<^verbatim>\<open><select>\<close>; from \<^verbatim>\<open></select>\<close> over the legend to
  the file sections; and the rest with the script.
\<close>

record pageTemplate =
  beforeTitle :: string
  afterTitle :: string
  beforeOptions :: string
  beforeSections :: string
  afterSections :: string

definition buildHtmlReport ::
  "pageTemplate \<Rightarrow> (rat \<Rightarrow> string) \<Rightarrow> (rat \<Rightarrow> string) \<Rightarrow> string \<Rightarrow> fileCoverage list
     \<Rightarrow> string" where
  "buildHtmlReport tpl showNumber toFixed2 title files =
     beforeTitle tpl @ escapeHtml title
     @ afterTitle tpl @ escapeHtml title
     @ beforeOptions tpl @ fileOptions toFixed2 files
     @ beforeSections tpl @ fileSections showNumber toFixed2 files
     @ afterSections tpl"

text \<open>
  A file record with its texts blanked: the path empty and every source line
  empty, the coverage data as they are.
\<close>

definition withoutText :: "fileCoverage \<Rightarrow> fileCoverage" where
  "withoutText f = f\<lparr> relPath := [], sourceLines := map (\<lambda>l. []) (sourceLines f) \<rparr>"

definition markupChars :: "char set" where
  "markupChars = {CHR ''<'', CHR ''>'', doubleQuote, singleQuote}"

text \<open>
  The template text of an option and of a section, cut at the places where the
  escaped path and the rows stand.
\<close>

definition optionBefore :: string where
  "optionBefore = ''<option value='' @ [doubleQuote]"

definition optionBetween :: "nat \<Rightarrow> string" where
  "optionBetween idx = [doubleQuote] @ (if idx = 0 then '' selected'' else []) @ ''>''"

definition optionAfter :: "(rat \<Rightarrow> string) \<Rightarrow> jsnumber \<Rightarrow> string" where
  "optionAfter toFixed2 pct =
     (if isFinite pct then '' '' @ emDash @ '' '' @ pctStr toFixed2 pct @ ''%'' else [])
     @ ''</option>''"

definition sectionBefore :: string where
  "sectionBefore = ''<section class='' @ quoted ''file'' @ '' data-file='' @ [doubleQuote]"

definition sectionBetween :: "nat \<Rightarrow> string" where
  "sectionBetween idx =
     [doubleQuote]
     @ '' style='' @ quoted (''display:'' @ (if idx = 0 then ''block'' else ''none''))
     @ ''>''
     @ [newline] @ spaces 10 @ ''<div class='' @ quoted ''fileHeader'' @ ''>''
     @ [newline] @ spaces 12 @ ''<div class='' @ quoted ''filePath'' @ ''>''"

definition sectionMeta :: "(rat \<Rightarrow> string) \<Rightarrow> jsnumber \<Rightarrow> string" where
  "sectionMeta toFixed2 pct =
     ''</div>''
     @ [newline] @ spaces 12 @ ''<div class='' @ quoted ''fileMeta'' @ ''>''
     @ [newline] @ spaces 14
       @ (if isFinite pct
          then ''<span class='' @ quoted ''pill'' @ ''>line coverage: ''
                 @ pctStr toFixed2 pct @ ''%</span>''
          else [])
     @ [newline] @ spaces 12 @ ''</div>''
     @ [newline] @ spaces 10 @ ''</div>''
     @ [newline] @ spaces 10 @ ''<div class='' @ quoted ''codePane''
       @ '' role='' @ quoted ''region'' @ '' aria-label='' @ quoted ''painted code'' @ ''>''
     @ [newline] @ spaces 12"

definition sectionAfter :: string where
  "sectionAfter = [newline] @ spaces 10 @ ''</div>'' @ [newline] @ spaces 8 @ ''</section>''"

text \<open>A small page template for evaluating examples.\<close>

definition exampleTemplate :: pageTemplate where
  "exampleTemplate =
     \<lparr> beforeTitle = ''<html><head><title>'',
       afterTitle = ''</title></head><body><h1>'',
       beforeOptions = ''</h1><select>'',
       beforeSections = ''</select>'',
       afterSections = ''</body></html>'' \<rparr>"

text \<open>
  The step summary, \<^verbatim>\<open>buildHtmlCodePaintingSummary\<close>. Its glyphs, as the bytes of
  their UTF-8 form.
\<close>

definition geqSign :: string where
  "geqSign = [CHR 0xE2, CHR 0x89, CHR 0xA5]"

definition crossMark :: string where
  "crossMark = [CHR 0xE2, CHR 0x9D, CHR 0x8C]"

definition warningSign :: string where
  "warningSign = [CHR 0xE2, CHR 0x9A, CHR 0xA0, CHR 0xEF, CHR 0xB8, CHR 0x8F]"

definition checkMark :: string where
  "checkMark = [CHR 0xE2, CHR 0x9C, CHR 0x85]"

definition pageGlyph :: string where
  "pageGlyph = [CHR 0xF0, CHR 0x9F, CHR 0x93, CHR 0x84]"

definition paletteGlyph :: string where
  "paletteGlyph = [CHR 0xF0, CHR 0x9F, CHR 0x8E, CHR 0xA8]"

definition bulbGlyph :: string where
  "bulbGlyph = [CHR 0xF0, CHR 0x9F, CHR 0x92, CHR 0xA1]"

text \<open>
  \<^verbatim>\<open>bgColor\<close> and \<^verbatim>\<open>indicator\<close> of a line: set for an uncovered line, then changed
  by \<^verbatim>\<open>if (isFail) { ... } else if (isCovered) { ... }\<close>.
\<close>

fun bgColor :: "lineStatus \<Rightarrow> string" where
  "bgColor CoveredFail = ''rgba(243, 156, 18, 0.30)''"
| "bgColor CoveredPass = ''rgba(46, 204, 113, 0.25)''"
| "bgColor Uncovered = ''transparent''"

fun indicator :: "lineStatus \<Rightarrow> string" where
  "indicator CoveredFail = warningSign"
| "indicator CoveredPass = checkMark"
| "indicator Uncovered = crossMark"

text \<open>\<^verbatim>\<open>s.padStart(n, ' ')\<close>\<close>

definition padStart :: "nat \<Rightarrow> string \<Rightarrow> string" where
  "padStart n s = spaces (n - length s) @ s"

text \<open>\<^verbatim>\<open>f.sourceLines[i] || ' '\<close>: the empty string is the one string that is falsy.\<close>

definition displayLine :: "string \<Rightarrow> string" where
  "displayLine l = (if l = [] then '' '' else l)"

text \<open>
  The element the loop pushes for index \<open>i\<close>, where \<open>line\<close> is
  \<^verbatim>\<open>f.sourceLines[i] || ' '\<close>: five template literals joined by \<^verbatim>\<open>+\<close>.
\<close>

definition paintedLine :: "fileCoverage \<Rightarrow> nat \<Rightarrow> string \<Rightarrow> string" where
  "paintedLine f i line =
     (let lineNo = i + 1;
          st = classify f lineNo;
          lineNum = padStart 4 (showNat lineNo)
      in
         ''<div style='' @ [doubleQuote]
         @ ''display: grid; grid-template-columns: 40px 60px 1fr; gap: ''
         @ ''8px; padding: 2px 8px; background: '' @ bgColor st
         @ ''; font-family: ui-monospace, monospace; font-size: 12px;'' @ [doubleQuote]
         @ ''><span style='' @ [doubleQuote] @ ''text-align: right; color: #666;''
         @ [doubleQuote] @ ''>'' @ indicator st @ ''</span><span style='' @ [doubleQuote]
         @ ''text-align: right; color: #999;'' @ [doubleQuote] @ ''>'' @ lineNum
         @ ''</span><span>'' @ escapeHtml line @ ''</span></div>'')"

text \<open>
  \<^verbatim>\<open>lines\<close> after the loop \<^verbatim>\<open>for (let i = 0; i < showLines; i++)\<close> with
  \<^verbatim>\<open>showLines = Math.min(totalLines, maxLinesPerFile)\<close>.
\<close>

definition paintedLines :: "nat \<Rightarrow> fileCoverage \<Rightarrow> string list" where
  "paintedLines maxLinesPerFile f =
     (let totalLines = length (sourceLines f);
          showLines = min totalLines maxLinesPerFile
      in map (\<lambda>i. paintedLine f i (displayLine (sourceLines f ! i))) [0..<showLines])"

definition coverageBadge :: "(rat \<Rightarrow> string) \<Rightarrow> jsnumber \<Rightarrow> string" where
  "coverageBadge toFixed2 pct =
     (if isFinite pct
      then
         '' <span style='' @ [doubleQuote]
         @ ''background: rgba(255,255,255,0.1); padding: 2px 8px; ''
         @ ''border-radius: 12px; font-size: 11px;'' @ [doubleQuote] @ ''>''
         @ pctStr toFixed2 pct @ ''%</span>''
      else [])"

text \<open>\<^verbatim>\<open>moreIndicator\<close>, with \<^verbatim>\<open>hasMore = totalLines > maxLinesPerFile\<close>.\<close>

definition moreIndicator :: "nat \<Rightarrow> nat \<Rightarrow> string" where
  "moreIndicator maxLinesPerFile totalLines =
     (if totalLines > maxLinesPerFile
      then
         '' <em style='' @ [doubleQuote] @ ''color: #999;'' @ [doubleQuote]
         @ ''>(showing first '' @ showNat maxLinesPerFile @ '' of '' @ showNat totalLines
         @ '' lines)</em>''
      else [])"

text \<open>
  The \<^verbatim>\<open><details>\<close> element of one file. The template literal is a line break and
  six spaces, the element, a line break and four spaces; the function returns it
  trimmed.
\<close>

definition detailsBody :: "(rat \<Rightarrow> string) \<Rightarrow> nat \<Rightarrow> fileCoverage \<Rightarrow> string" where
  "detailsBody toFixed2 maxLinesPerFile f =
     ''<details style='' @ [doubleQuote]
     @ ''margin: 12px 0; border: 1px solid rgba(255,255,255,0.1); ''
     @ ''border-radius: 6px; padding: 8px;'' @ [doubleQuote] @ ''>'' @ [newline] @ spaces 8
     @ ''<summary style='' @ [doubleQuote]
     @ ''cursor: pointer; font-weight: 600; padding: 4px;'' @ [doubleQuote] @ ''>'' @ pageGlyph
     @ '' '' @ escapeHtml (relPath f) @ coverageBadge toFixed2 (fileCoveragePct f)
     @ moreIndicator maxLinesPerFile (length (sourceLines f)) @ ''</summary>'' @ [newline]
     @ spaces 8 @ ''<div style='' @ [doubleQuote]
     @ ''margin-top: 8px; border: 1px solid rgba(255,255,255,0.05); ''
     @ ''border-radius: 4px; overflow: hidden;'' @ [doubleQuote] @ ''>'' @ [newline] @ spaces 10
     @ joinLines (paintedLines maxLinesPerFile f) @ [newline] @ spaces 8 @ ''</div>''
     @ [newline] @ spaces 6 @ ''</details>''"

definition detailsSection :: "(rat \<Rightarrow> string) \<Rightarrow> nat \<Rightarrow> fileCoverage \<Rightarrow> string" where
  "detailsSection toFixed2 maxLinesPerFile f =
     trim (([newline] @ spaces 6) @ detailsBody toFixed2 maxLinesPerFile f
           @ ([newline] @ spaces 4))"

text \<open>\<^verbatim>\<open>moreFilesNote\<close> for \<open>n\<close> files.\<close>

definition moreFilesNote :: "nat \<Rightarrow> nat \<Rightarrow> string" where
  "moreFilesNote maxFiles n =
     (if n > maxFiles
      then
         ''<p><em>... and '' @ showNat (n - maxFiles)
         @ '' more file(s). Download the HTML report artifact for full ''
         @ ''details.</em></p>''
      else [])"

text \<open>
  The conversion of a value of the summary document to a primitive, which
  \<^verbatim>\<open>Number(v)\<close> and a template literal \<^verbatim>\<open>${v}\<close> start with, throws a \<^verbatim>\<open>TypeError\<close> for
  an object with an own property \<^verbatim>\<open>toString\<close> (no value of \<^verbatim>\<open>JSON.parse\<close> is callable)
  and for an array with such an element; \<open>convertible\<close> are the other values.
\<close>

fun convertible :: "json \<Rightarrow> bool" where
  "convertible (JObj kvs) = (map_of kvs ''toString'' = None)"
| "convertible (JArr xs) = list_all convertible xs"
| "convertible JNull = True"
| "convertible (JBool b) = True"
| "convertible (JNum n) = True"
| "convertible (JStr s) = True"

text \<open>The string of a number in a template literal; \<open>showNumber\<close> gives it for a finite one.\<close>

definition showJsNumber :: "(rat \<Rightarrow> string) \<Rightarrow> jsnumber \<Rightarrow> string" where
  "showJsNumber showNumber n =
     (case n of
        Finite r \<Rightarrow> showNumber r
      | NaN \<Rightarrow> ''NaN''
      | PosInfinity \<Rightarrow> ''Infinity''
      | NegInfinity \<Rightarrow> ''-Infinity'')"

text \<open>\<^verbatim>\<open>xs.join(',')\<close>\<close>

fun joinComma :: "string list \<Rightarrow> string" where
  "joinComma [] = []"
| "joinComma [x] = x"
| "joinComma (x # xs) = x @ '','' @ joinComma xs"

text \<open>
  \<^verbatim>\<open>${v}\<close> for a convertible value: a string stands as it is; an array is its
  elements joined by commas, \<^verbatim>\<open>null\<close> elements as the empty string.
\<close>

fun templateText :: "(rat \<Rightarrow> string) \<Rightarrow> json \<Rightarrow> string" where
  "templateText showNumber JNull = ''null''"
| "templateText showNumber (JBool b) = (if b then ''true'' else ''false'')"
| "templateText showNumber (JNum n) = showJsNumber showNumber n"
| "templateText showNumber (JStr s) = s"
| "templateText showNumber (JArr xs) =
     joinComma (map (\<lambda>x. if x = JNull then [] else templateText showNumber x) xs)"
| "templateText showNumber (JObj kvs) = ''[object Object]''"

text \<open>
  Whether the reads of one metric throw: \<^verbatim>\<open>m.pct\<close> of \<^verbatim>\<open>null\<close>, or the conversion of
  \<^verbatim>\<open>m.pct\<close>, \<^verbatim>\<open>m.covered\<close> or \<^verbatim>\<open>m.total\<close>.
\<close>

definition readThrows :: "json \<Rightarrow> string \<Rightarrow> bool" where
  "readThrows m name = (case getProp m name of None \<Rightarrow> False | Some v \<Rightarrow> \<not> convertible v)"

definition metricThrows :: "json \<Rightarrow> bool" where
  "metricThrows m =
     (m = JNull \<or> readThrows m ''pct'' \<or> readThrows m ''covered'' \<or> readThrows m ''total'')"

text \<open>\<^verbatim>\<open>gate\<close> and \<^verbatim>\<open>gateColor\<close> in the text of the fragment.\<close>

fun gateText :: "gateStatus \<Rightarrow> string" where
  "gateText PASS = ''PASS''"
| "gateText FAIL = ''FAIL''"

fun gateColor :: "gateStatus \<Rightarrow> string" where
  "gateColor PASS = ''#28a745''"
| "gateColor FAIL = ''#dc3545''"

text \<open>The parts of the template literal the function returns, in their order.\<close>

definition summaryHeading :: "string \<Rightarrow> string" where
  "summaryHeading title =
     ''<h2>'' @ escapeHtml title @ '' '' @ emDash @ '' Coverage Summary</h2>''"

definition gateParagraph :: "(rat \<Rightarrow> string) \<Rightarrow> rat \<Rightarrow> gateStatus \<Rightarrow> string" where
  "gateParagraph showNumber threshold g =
     ''<p><strong>Quality Gate (lines '' @ geqSign @ '' '' @ showNumber threshold
     @ ''%):</strong> <span style='' @ [doubleQuote] @ ''color: '' @ gateColor g
     @ ''; font-weight: 600;'' @ [doubleQuote] @ ''>'' @ gateText g @ ''</span></p>''"

definition tableHead :: string where
  "tableHead =
     ''<table>'' @ [newline] @ spaces 2 @ ''<thead>'' @ [newline] @ spaces 4 @ ''<tr>''
     @ [newline] @ spaces 6 @ ''<th>Metric</th>'' @ [newline] @ spaces 6 @ ''<th style=''
     @ [doubleQuote] @ ''text-align: right;'' @ [doubleQuote] @ ''>Coverage</th>'' @ [newline]
     @ spaces 6 @ ''<th style='' @ [doubleQuote] @ ''text-align: right;'' @ [doubleQuote]
     @ ''>Covered / Total</th>'' @ [newline] @ spaces 4 @ ''</tr>'' @ [newline] @ spaces 2
     @ ''</thead>'' @ [newline] @ spaces 2 @ ''<tbody>'' @ [newline]"

text \<open>
  A row of the table. The template writes it four times, for \<^verbatim>\<open>Lines\<close> and
  \<^verbatim>\<open>metrics.lines\<close>, \<^verbatim>\<open>Branches\<close> and \<^verbatim>\<open>metrics.branches\<close>, \<^verbatim>\<open>Functions\<close> and
  \<^verbatim>\<open>metrics.functions\<close>, \<^verbatim>\<open>Statements\<close> and \<^verbatim>\<open>metrics.statements\<close>, with the cells
  \<^verbatim>\<open>${pctStr(asNumber(m.pct, 0))}%\<close> and \<^verbatim>\<open>${m.covered ?? 0} / ${m.total ?? 0}\<close>;
  \<open>countsCell\<close> is the second of these, the last cell of the row.
\<close>

definition countsCell :: "string \<Rightarrow> string \<Rightarrow> string" where
  "countsCell coveredText totalText =
     ''<td style='' @ [doubleQuote] @ ''text-align: right;'' @ [doubleQuote] @ ''>''
     @ coveredText @ '' / '' @ totalText @ ''</td>''"

definition metricRow :: "string \<Rightarrow> string \<Rightarrow> string \<Rightarrow> string \<Rightarrow> string" where
  "metricRow label pctText coveredText totalText =
     ''    <tr>'' @ [newline] @ spaces 6 @ ''<td>'' @ label @ ''</td>'' @ [newline] @ spaces 6
     @ ''<td style='' @ [doubleQuote] @ ''text-align: right;'' @ [doubleQuote] @ ''><strong>''
     @ pctText @ ''%</strong></td>'' @ [newline] @ spaces 6 @ countsCell coveredText totalText
     @ [newline] @ spaces 4 @ ''</tr>'' @ [newline]"

definition metricRowOf ::
  "(json \<Rightarrow> jsnumber) \<Rightarrow> (rat \<Rightarrow> string) \<Rightarrow> (rat \<Rightarrow> string) \<Rightarrow> string \<Rightarrow> json \<Rightarrow> string" where
  "metricRowOf conv showNumber toFixed2 label m =
     metricRow label (pctStr toFixed2 (Finite (pctRead conv m)))
       (templateText showNumber (countRead m ''covered''))
       (templateText showNumber (countRead m ''total''))"

definition tableFoot :: string where
  "tableFoot =
     ''  </tbody>'' @ [newline] @ ''</table>''"

definition legend :: string where
  "legend =
     ''<hr>'' @ [newline] @ [newline] @ ''<h3>'' @ paletteGlyph @ '' Code Painting</h3>''
     @ [newline] @ [newline] @ ''<p><strong>Legend:</strong></p>'' @ [newline] @ ''<ul>''
     @ [newline] @ spaces 2 @ ''<li>'' @ checkMark @ '' Covered by tests (passing)</li>''
     @ [newline] @ spaces 2 @ ''<li>'' @ warningSign
     @ '' Covered by tests (failing - appears in Jest error stack '' @ ''traces)</li>''
     @ [newline] @ spaces 2 @ ''<li>'' @ crossMark @ '' Not covered by tests</li>'' @ [newline]
     @ ''</ul>''"

definition tipParagraph :: string where
  "tipParagraph =
     ''<p><em>'' @ bulbGlyph @ '' Expand the file sections above to view the code painting. ''
     @ ''For a full interactive HTML report, download the workflow '' @ ''artifact.</em></p>''"

text \<open>
  The template literal the function returns, between its first line break and its
  last: \<open>g\<close> is \<^verbatim>\<open>gate\<close>, \<open>sections\<close> is \<^verbatim>\<open>fileSections\<close> and \<open>moreNote\<close> is
  \<^verbatim>\<open>moreFilesNote\<close>.
\<close>

definition summaryBody ::
  "(json \<Rightarrow> jsnumber) \<Rightarrow> (rat \<Rightarrow> string) \<Rightarrow> (rat \<Rightarrow> string) \<Rightarrow> string \<Rightarrow> summaryMetrics \<Rightarrow> rat
     \<Rightarrow> gateStatus \<Rightarrow> string \<Rightarrow> string \<Rightarrow> string" where
  "summaryBody conv showNumber toFixed2 title ms threshold g sections moreNote =
     summaryHeading title
     @ [newline, newline] @ gateParagraph showNumber threshold g
     @ [newline, newline] @ tableHead
     @ metricRowOf conv showNumber toFixed2 ''Lines'' (lines ms)
     @ metricRowOf conv showNumber toFixed2 ''Branches'' (branches ms)
     @ metricRowOf conv showNumber toFixed2 ''Functions'' (functionsMetric ms)
     @ metricRowOf conv showNumber toFixed2 ''Statements'' (statements ms)
     @ tableFoot
     @ [newline, newline] @ legend
     @ [newline, newline] @ sections
     @ [newline, newline] @ moreNote
     @ [newline, newline] @ tipParagraph"

text \<open>
  \<^verbatim>\<open>buildHtmlCodePaintingSummary({ title, metrics, threshold, files, maxFiles = 5,
  maxLinesPerFile = 50 })\<close>; \<^verbatim>\<open>main\<close> passes neither \<^verbatim>\<open>maxFiles\<close> nor
  \<^verbatim>\<open>maxLinesPerFile\<close>. \<open>conv\<close> is \<^verbatim>\<open>Number(v)\<close> on a convertible value, \<open>ms\<close> the
  argument \<^verbatim>\<open>metrics\<close>. The result is the template literal, trimmed, or the
  \<^verbatim>\<open>TypeError\<close> thrown.
\<close>

definition buildHtmlCodePaintingSummary ::
  "(json \<Rightarrow> jsnumber) \<Rightarrow> (rat \<Rightarrow> string) \<Rightarrow> (rat \<Rightarrow> string) \<Rightarrow> string \<Rightarrow> summaryMetrics \<Rightarrow> rat
     \<Rightarrow> fileCoverage list \<Rightarrow> nat \<Rightarrow> nat \<Rightarrow> summaryError + string" where
  "buildHtmlCodePaintingSummary conv showNumber toFixed2 title ms threshold files maxFiles
       maxLinesPerFile =
     (if metricThrows (lines ms) \<or> metricThrows (branches ms)
         \<or> metricThrows (functionsMetric ms) \<or> metricThrows (statements ms)
      then Inl TypeError
      else
        let linePct = pctRead conv (lines ms);
            g = gate linePct threshold;
            filesToShow = take maxFiles files;
            fileSections =
              joinLines (map (detailsSection toFixed2 maxLinesPerFile) filesToShow);
            moreNote = moreFilesNote maxFiles (length files)
        in Inr (trim
                 ([newline]
                  @ summaryBody conv showNumber toFixed2 title ms threshold g fileSections
                      moreNote
                  @ [newline])))"

text \<open>
  A summary document whose \<^verbatim>\<open>total.lines.covered\<close> is a string, the metrics
  \<^verbatim>\<open>readCoverageSummary\<close> returns for it, and the same metrics with the empty
  string there.
\<close>

definition markupSummary :: json where
  "markupSummary =
     JObj [(''total'',
            JObj [(''lines'',
                   JObj [(''total'', JNum (Finite 3)), (''covered'', JStr ''<b>''),
                         (''pct'', JNum (Finite 50))])])]"

definition markupMetrics :: summaryMetrics where
  "markupMetrics =
     \<lparr> lines = JObj [(''total'', JNum (Finite 3)), (''covered'', JStr ''<b>''),
                     (''pct'', JNum (Finite 50))],
       branches = JObj [], functionsMetric = JObj [], statements = JObj [] \<rparr>"

definition blankMetrics :: summaryMetrics where
  "blankMetrics =
     \<lparr> lines = JObj [(''total'', JNum (Finite 3)), (''covered'', JStr []),
                     (''pct'', JNum (Finite 50))],
       branches = JObj [], functionsMetric = JObj [], statements = JObj [] \<rparr>"

text \<open>
  For the examples: the string of a number that is whole and not negative, and
  \<^verbatim>\<open>n.toFixed(2)\<close> for a number that is not negative and has two decimals at most.
\<close>

definition wholeNumber :: "rat \<Rightarrow> string" where
  "wholeNumber r = showNat (nat \<lfloor>r\<rfloor>)"

definition twoDecimals :: "rat \<Rightarrow> string" where
  "twoDecimals r =
     (let n = nat \<lfloor>r * 100\<rfloor>
      in showNat (n div 100) @ ''.'' @ showNat (n mod 100 div 10) @ showNat (n mod 10))"

text \<open>\<^verbatim>\<open>Number(v)\<close> on the numbers of a document.\<close>

fun numberOfJson :: "json \<Rightarrow> jsnumber" where
  "numberOfJson (JNum n) = n"
| "numberOfJson v = NaN"

definition defaultMaxFiles :: nat where
  "defaultMaxFiles = 5"

definition defaultMaxLinesPerFile :: nat where
  "defaultMaxLinesPerFile = 50"

text \<open>
  Two documents that are the same text but for the places where the output of
  \<^verbatim>\<open>escapeHtml\<close> stands: they agree character by character, and either may hold
  escaped text that the other does not.
\<close>

inductive sameTemplate :: "string \<Rightarrow> string \<Rightarrow> bool" where
  same_empty: "sameTemplate [] []"
| same_char: "sameTemplate a b \<Longrightarrow> sameTemplate (c # a) (c # b)"
| same_left: "sameTemplate a b \<Longrightarrow> sameTemplate (escapeHtml t @ a) b"
| same_right: "sameTemplate a b \<Longrightarrow> sameTemplate a (escapeHtml t @ b)"

section \<open>Theorems\<close>

subsection \<open>Quality gate\<close>


subsection \<open>Line status\<close>

lemma classify_cases:
  "classify f n = (if isFailAt f n then CoveredFail
                   else if hitsAt f n > 0 then CoveredPass else Uncovered)"
  by (simp add: classify_def)

text \<open>
  C1. For every file record (hit counts non-negative) and every line number \<open>n\<close>,
  in particular every 1-based position of its source lines, exactly one of the
  three statuses of the specification holds, and it is the one the renderers
  compute: uncovered when \<open>n\<close> has no hit count or the count 0, covered-failing
  when the count is positive and \<open>n\<close> is a failing line, covered-passing when the
  count is positive and \<open>n\<close> is not a failing line.
\<close>

theorem line_status_partition:
  assumes "nonNegativeHits f"
  shows "(classify f n = Uncovered \<longleftrightarrow> spec_uncovered f n)
       \<and> (classify f n = CoveredFail \<longleftrightarrow> spec_covered_failing f n)
       \<and> (classify f n = CoveredPass \<longleftrightarrow> spec_covered_passing f n)
       \<and> (spec_uncovered f n \<or> spec_covered_failing f n \<or> spec_covered_passing f n)
       \<and> \<not> (spec_uncovered f n \<and> spec_covered_failing f n)
       \<and> \<not> (spec_uncovered f n \<and> spec_covered_passing f n)
       \<and> \<not> (spec_covered_failing f n \<and> spec_covered_passing f n)"
proof -
  have nn: "\<And>h. hitCount f n = Some h \<Longrightarrow> 0 \<le> h"
    using assms by (simp add: nonNegativeHits_def)
  show ?thesis
  proof (cases "hitCount f n")
    case None
    then have "hitsAt f n = 0"
      by (auto simp: hitsAt_def hitCount_def split: option.splits)
    with None show ?thesis
      by (simp add: classify_cases isFailAt_def spec_uncovered_def
          spec_covered_failing_def spec_covered_passing_def)
  next
    case (Some h)
    then have h: "hitsAt f n = h"
      by (auto simp: hitsAt_def hitCount_def split: option.splits)
    have "0 \<le> h" using nn Some by simp
    then have "h = 0 \<or> h > 0" by auto
    moreover have "isFailAt f n = (h > 0 \<and> inFailing f n)"
      by (simp add: isFailAt_def inFailing_def h)
    ultimately show ?thesis using Some h
      by (auto simp: classify_cases spec_uncovered_def
          spec_covered_failing_def spec_covered_passing_def)
  qed
qed

theorem line_status_partition_witness:
  "nonNegativeHits exampleFile
   \<and> classify exampleFile 1 = CoveredPass \<and> spec_covered_passing exampleFile 1
   \<and> classify exampleFile 2 = Uncovered \<and> spec_uncovered exampleFile 2
   \<and> classify exampleFile 3 = CoveredFail \<and> spec_covered_failing exampleFile 3
   \<and> \<not> spec_uncovered exampleFile 3 \<and> \<not> spec_covered_passing exampleFile 3"
proof -
  have nn: "nonNegativeHits exampleFile"
    by (auto simp: nonNegativeHits_def hitCount_def exampleFile_def split: if_splits)
  have c: "classify exampleFile 1 = CoveredPass" "classify exampleFile 2 = Uncovered"
    "classify exampleFile 3 = CoveredFail"
    by (simp_all add: classify_cases isFailAt_def hitsAt_def exampleFile_def)
  show ?thesis
    using nn c line_status_partition [OF nn, of 1] line_status_partition [OF nn, of 2]
      line_status_partition [OF nn, of 3]
    by simp
qed

subsection \<open>String lemmas\<close>

lemma startsWith_Nil [simp]: "startsWith s []"
  by (simp add: startsWith_def)

lemma startsWith_append [simp]: "startsWith (p @ s) p"
  by (simp add: startsWith_def)

lemma startsWith_set: "startsWith s p \<Longrightarrow> set p \<subseteq> set s"
  unfolding startsWith_def by (metis set_take_subset)

lemma startsWith_decomp: "startsWith s p \<longleftrightarrow> (\<exists>t. s = p @ t)"
  unfolding startsWith_def by (metis append_eq_conv_conj append_take_drop_id)

lemma includes_set: "includesStr s m \<Longrightarrow> set m \<subseteq> set s"
proof (induction s)
  case Nil
  then show ?case by simp
next
  case (Cons c cs)
  then show ?case using startsWith_set [of "c # cs" m] by auto
qed

lemma includes_decomp: "includesStr s m \<longleftrightarrow> (\<exists>pre post. s = pre @ m @ post)"
proof (induction s)
  case Nil
  then show ?case by simp
next
  case (Cons c cs)
  show ?case
  proof
    assume "includesStr (c # cs) m"
    then consider "startsWith (c # cs) m" | "includesStr cs m" by auto
    then show "\<exists>pre post. c # cs = pre @ m @ post"
    proof cases
      case 1
      then obtain t where "c # cs = m @ t" by (auto simp: startsWith_decomp)
      then have "c # cs = [] @ m @ t" by simp
      then show ?thesis by blast
    next
      case 2
      then obtain pre post where "cs = pre @ m @ post" using Cons.IH by auto
      then have "c # cs = (c # pre) @ m @ post" by simp
      then show ?thesis by blast
    qed
  next
    assume "\<exists>pre post. c # cs = pre @ m @ post"
    then obtain pre post where e: "c # cs = pre @ m @ post" by auto
    show "includesStr (c # cs) m"
    proof (cases pre)
      case Nil
      then have "startsWith (c # cs) m" using e by (simp add: startsWith_decomp)
      then show ?thesis by simp
    next
      case (Cons a pre')
      then have "cs = pre' @ m @ post" using e by simp
      then show ?thesis using Cons.IH by auto
    qed
  qed
qed

lemma lastIndexOf_ge: "lastIndexOf s m \<ge> - 1"
  by (induction s) (auto simp: Let_def)

lemma lastIndexOf_includes: "lastIndexOf s m \<ge> 0 \<longleftrightarrow> includesStr s m"
  by (induction s) (auto simp: Let_def)

lemma lastIndexOf_le: "lastIndexOf s m \<le> int (length s)"
  by (induction s) (auto simp: Let_def)

lemma drop_lastIndexOf: "includesStr s m \<Longrightarrow> drop (nat (lastIndexOf s m)) s = fromLast m s"
proof (induction s)
  case Nil
  then show ?case by simp
next
  case (Cons c cs)
  show ?case
  proof (cases "includesStr cs m")
    case True
    then have "lastIndexOf cs m \<ge> 0" by (simp add: lastIndexOf_includes)
    then show ?thesis using True Cons.IH
      by (simp add: Let_def nat_add_distrib)
  next
    case False
    then have "\<not> lastIndexOf cs m \<ge> 0" by (simp add: lastIndexOf_includes)
    then show ?thesis using False Cons.prems by (simp add: Let_def)
  qed
qed

lemma drop_Suc_lastIndexOf:
  assumes "includesStr s m"
  shows "drop (nat (lastIndexOf s m + 1)) s = tl (fromLast m s)"
proof -
  have "lastIndexOf s m \<ge> 0" using assms by (simp add: lastIndexOf_includes)
  then have "nat (lastIndexOf s m + 1) = Suc (nat (lastIndexOf s m))" by simp
  then show ?thesis using drop_lastIndexOf [OF assms] by (metis drop_Suc tl_drop)
qed

lemma replaceAll_absent: "c \<notin> set s \<Longrightarrow> replaceAll c r s = s"
  by (induction s) (auto simp: replaceAll_def)

lemma basename_bare: "slash \<notin> set s \<Longrightarrow> basename s = s"
proof -
  assume a: "slash \<notin> set s"
  then have d: "dropWhile (\<lambda>c. c = slash) (rev s) = rev s"
    by (cases "rev s") (auto simp: rev_eq_Cons_iff)
  have t: "takeWhile (\<lambda>c. c \<noteq> slash) (rev s) = rev s"
    using a by (auto simp: takeWhile_eq_all_conv)
  show ?thesis unfolding basename_def d t by simp
qed

subsection \<open>Path normalizer\<close>

text \<open>
  The two notions the rules use, in terms of the path alone: \<open>fromLast\<close> returns
  the part from the occurrence of the segment after which the segment does not
  start again, and \<open>basename\<close> returns the last component, trailing separators
  apart.
\<close>

lemma fromLast_last_occurrence:
  assumes "\<not> includesStr (tl (seg @ post)) seg"
  shows "fromLast seg (pre @ seg @ post) = seg @ post"
proof (induction pre)
  case Nil
  show ?case
  proof (cases "seg @ post")
    case Nil
    then show ?thesis by simp
  next
    case (Cons c cs)
    then have "\<not> includesStr cs seg" using assms by simp
    then show ?thesis using Cons by simp
  qed
next
  case (Cons p pre)
  have "includesStr (pre @ seg @ post) seg" by (auto simp: includes_decomp)
  then show ?case using Cons.IH by simp
qed

lemma basename_final_component:
  assumes "name \<noteq> []" and "slash \<notin> set name" and "set trail \<subseteq> {slash}"
  shows "basename (dir @ slash # name @ trail) = name"
    and "basename (name @ trail) = name"
proof -
  have t: "\<And>x. x \<in> set (rev trail) \<Longrightarrow> x = slash" using assms(3) by auto
  obtain y ys where r: "rev name = y # ys" using assms(1) by (cases "rev name") auto
  then have y: "y \<noteq> slash" using assms(2) by (metis list.set_intros(1) set_rev)
  have all: "\<forall>x \<in> set (rev name). x \<noteq> slash" using assms(2) by auto
  have "dropWhile (\<lambda>c. c = slash) (rev trail @ rev name @ slash # rev dir)
      = dropWhile (\<lambda>c. c = slash) (rev name @ slash # rev dir)"
    by (rule dropWhile_append2) (use t in auto)
  then have d1: "dropWhile (\<lambda>c. c = slash) (rev trail @ rev name @ slash # rev dir)
      = rev name @ slash # rev dir"
    using y by (simp add: r)
  have "dropWhile (\<lambda>c. c = slash) (rev trail @ rev name)
      = dropWhile (\<lambda>c. c = slash) (rev name)"
    by (rule dropWhile_append2) (use t in auto)
  then have d2: "dropWhile (\<lambda>c. c = slash) (rev trail @ rev name) = rev name"
    using y by (simp add: r)
  have t1: "takeWhile (\<lambda>c. c \<noteq> slash) (rev name @ slash # rev dir) = rev name"
    using all by (simp add: takeWhile_append2 del: set_rev)
  have t2: "takeWhile (\<lambda>c. c \<noteq> slash) (rev name) = rev name"
    using all by (simp add: takeWhile_eq_all_conv del: set_rev)
  show "basename (dir @ slash # name @ trail) = name"
    by (simp add: basename_def d1 t1)
  show "basename (name @ trail) = name"
    by (simp add: basename_def d2 t2)
qed

text \<open>
  C5. The normalizer follows the four ordered rules of the specification, first
  match winning, once the root of rule (1) is read as the repository root with
  its separators normalized and its trailing separators removed: (1) the
  separator-normalized path starts with that root plus a separator: the remainder;
  (2) it contains \<^verbatim>\<open>/src/\<close>: everything from the last occurrence onward, without
  the leading separator; (3) the same for \<^verbatim>\<open>/tests/\<close>; (4) the final path
  component; an empty or absent path gives no location.
\<close>

theorem normalize_follows_rules:
  "normalizeToRepoRel repoRoot candidatePath = spec_normalize (rootNorm repoRoot) candidatePath"
proof (cases candidatePath)
  case None
  then show ?thesis by (simp add: normalizeToRepoRel_def spec_normalize_def)
next
  case (Some p)
  have src: "includesStr (sepNorm p) ''/src/'' \<Longrightarrow>
      drop (nat (lastIndexOf (sepNorm p) ''/src/'' + 1)) (sepNorm p)
        = tl (fromLast ''/src/'' (sepNorm p))"
    by (rule drop_Suc_lastIndexOf)
  have tests: "includesStr (sepNorm p) ''/tests/'' \<Longrightarrow>
      drop (nat (lastIndexOf (sepNorm p) ''/tests/'' + 1)) (sepNorm p)
        = tl (fromLast ''/tests/'' (sepNorm p))"
    by (rule drop_Suc_lastIndexOf)
  show ?thesis
    using Some src tests
    by (simp add: normalizeToRepoRel_def spec_normalize_def Let_def lastIndexOf_includes)
qed

text \<open>
  For a root that has no backslash and does not end in a separator the rules
  hold with the root as it is given.
\<close>

lemma rootNorm_plain:
  assumes "backslash \<notin> set repoRoot" and "repoRoot = [] \<or> last repoRoot \<noteq> slash"
  shows "rootNorm repoRoot = repoRoot"
proof -
  have n: "sepNorm repoRoot = repoRoot" using assms(1) by (simp add: sepNorm_def replaceAll_absent)
  have "dropWhile (\<lambda>c. c = slash) (rev repoRoot) = rev repoRoot"
  proof (cases "rev repoRoot")
    case Nil
    then show ?thesis by simp
  next
    case (Cons y ys)
    then have "repoRoot \<noteq> []" by auto
    then have "last repoRoot \<noteq> slash" using assms(2) by simp
    then have "y \<noteq> slash" using Cons \<open>repoRoot \<noteq> []\<close> by (simp add: last_rev [symmetric] del: last_rev)
    then show ?thesis using Cons by simp
  qed
  then show ?thesis by (simp add: rootNorm_def stripTrailingSlashes_def n)
qed

lemma normalize_plain_root:
  assumes "backslash \<notin> set repoRoot" and "repoRoot = [] \<or> last repoRoot \<noteq> slash"
  shows "normalizeToRepoRel repoRoot candidatePath = spec_normalize repoRoot candidatePath"
proof (cases candidatePath)
  case None
  then show ?thesis by (simp add: normalizeToRepoRel_def spec_normalize_def)
next
  case (Some p)
  have src: "includesStr (sepNorm p) ''/src/'' \<Longrightarrow>
      drop (nat (lastIndexOf (sepNorm p) ''/src/'' + 1)) (sepNorm p)
        = tl (fromLast ''/src/'' (sepNorm p))"
    by (rule drop_Suc_lastIndexOf)
  have tests: "includesStr (sepNorm p) ''/tests/'' \<Longrightarrow>
      drop (nat (lastIndexOf (sepNorm p) ''/tests/'' + 1)) (sepNorm p)
        = tl (fromLast ''/tests/'' (sepNorm p))"
    by (rule drop_Suc_lastIndexOf)
  show ?thesis
    using Some src tests rootNorm_plain [OF assms]
    by (simp add: normalizeToRepoRel_def spec_normalize_def Let_def lastIndexOf_includes)
qed

text \<open>
  Rule (1) as the specification states it, with the repository root itself,
  fails for a root that ends in a separator: the rules would go on to rule (4)
  and give the file name, the code strips the root.
\<close>

theorem normalize_raw_root_counterexample:
  "normalizeToRepoRel ''/repo/'' (Some ''/repo/lib/a.js'') = Some ''lib/a.js''
   \<and> spec_normalize ''/repo/'' (Some ''/repo/lib/a.js'') = Some ''a.js''"
  by (simp add: normalizeToRepoRel_def spec_normalize_def sepNorm_def rootNorm_def
      replaceAll_def stripTrailingSlashes_def startsWith_def basename_def Let_def)

text \<open>
  The fixed points of the normalizer are the bare file names: each of the first
  three rules returns a proper suffix of the path, and the file name of a path
  is the path only when it has no separator.
\<close>

lemma sepNorm_length: "length (sepNorm s) = length s"
  by (induction s) (simp_all add: sepNorm_def replaceAll_def)

lemma sepNorm_backslash: "backslash \<in> set s \<Longrightarrow> slash \<in> set (sepNorm s)"
  by (induction s) (auto simp: sepNorm_def replaceAll_def)

lemma basename_full_length:
  assumes "length (basename s) = length s"
  shows "slash \<notin> set s"
proof -
  let ?d = "dropWhile (\<lambda>c. c = slash) (rev s)"
  have 1: "length (takeWhile (\<lambda>c. c \<noteq> slash) ?d) \<le> length ?d"
    by (rule length_takeWhile_le)
  have 2: "length ?d \<le> length (rev s)" by (rule length_dropWhile_le)
  have l: "length (takeWhile (\<lambda>c. c \<noteq> slash) ?d) = length s"
    using assms by (simp add: basename_def)
  then have "length ?d = length (rev s)" using 1 2 by simp
  then have d: "?d = rev s"
    by (metis append_eq_conv_conj append_self_conv2 length_0_conv add_cancel_left_left
        length_append takeWhile_dropWhile_id)
  then have "length (takeWhile (\<lambda>c. c \<noteq> slash) (rev s)) = length (rev s)" using l by simp
  then have "takeWhile (\<lambda>c. c \<noteq> slash) (rev s) = rev s"
    by (metis append_self_conv length_0_conv add_cancel_right_right
        length_append takeWhile_dropWhile_id)
  then have "\<forall>x \<in> set (rev s). x \<noteq> slash" by (simp add: takeWhile_eq_all_conv)
  then show ?thesis by auto
qed

lemma normalize_bare:
  assumes "bareFileName r"
  shows "normalizeToRepoRel repoRoot (Some r) = Some r"
proof -
  have b: "r \<noteq> []" "slash \<notin> set r" "backslash \<notin> set r"
    using assms by (simp_all add: bareFileName_def)
  have n: "sepNorm r = r" using b by (simp add: sepNorm_def replaceAll_absent)
  have "\<not> startsWith r (rootNorm repoRoot @ ''/'')"
    using startsWith_set [of r "rootNorm repoRoot @ ''/''"] b by auto
  moreover have "\<not> includesStr r ''/src/''" using includes_set [of r "''/src/''"] b by auto
  moreover have "\<not> includesStr r ''/tests/''" using includes_set [of r "''/tests/''"] b by auto
  ultimately show ?thesis
    using b n by (simp add: normalizeToRepoRel_def Let_def lastIndexOf_includes basename_bare)
qed

lemma normalize_shorter_or_basename:
  assumes "normalizeToRepoRel repoRoot (Some p) = Some r"
  shows "length r < length p \<or> r = basename (sepNorm p)"
proof -
  have ne: "p \<noteq> []" using assms by (auto simp: normalizeToRepoRel_def)
  then have pos: "0 < length (sepNorm p)" by (simp add: sepNorm_length)
  have i1: "lastIndexOf (sepNorm p) ''/src/'' \<ge> 0 \<Longrightarrow>
      length (drop (nat (lastIndexOf (sepNorm p) ''/src/'' + 1)) (sepNorm p)) < length p"
    using pos by (simp add: sepNorm_length)
  have i2: "lastIndexOf (sepNorm p) ''/tests/'' \<ge> 0 \<Longrightarrow>
      length (drop (nat (lastIndexOf (sepNorm p) ''/tests/'' + 1)) (sepNorm p)) < length p"
    using pos by (simp add: sepNorm_length)
  have i0: "length (drop (length (rootNorm repoRoot) + 1) (sepNorm p)) < length p"
    using pos by (simp add: sepNorm_length)
  show ?thesis
    using assms ne i0 i1 i2
    by (auto simp: normalizeToRepoRel_def Let_def split: if_splits)
qed

lemma normalize_fixed_point:
  "normalizeToRepoRel repoRoot (Some r) = Some r \<longleftrightarrow> bareFileName r"
proof
  assume f: "normalizeToRepoRel repoRoot (Some r) = Some r"
  then have ne: "r \<noteq> []" by (auto simp: normalizeToRepoRel_def)
  have "r = basename (sepNorm r)" using normalize_shorter_or_basename [OF f] by simp
  then have "length (basename (sepNorm r)) = length (sepNorm r)" by (simp add: sepNorm_length)
  then have s: "slash \<notin> set (sepNorm r)" by (rule basename_full_length)
  then have "basename (sepNorm r) = sepNorm r" by (rule basename_bare)
  then have e: "sepNorm r = r" using \<open>r = basename (sepNorm r)\<close> by simp
  have "backslash \<notin> set r" using sepNorm_backslash s by blast
  then show "bareFileName r" using ne s e by (simp add: bareFileName_def)
next
  assume "bareFileName r"
  then show "normalizeToRepoRel repoRoot (Some r) = Some r" by (rule normalize_bare)
qed

text \<open>
  C6. Normalizing the normalizer's own output returns that output unchanged when
  the output is no location or a bare file name (not empty, no separator).
\<close>

theorem normalize_idempotent_on_bare:
  assumes "case normalizeToRepoRel repoRoot p of None \<Rightarrow> True | Some r \<Rightarrow> bareFileName r"
  shows "normalizeToRepoRel repoRoot (normalizeToRepoRel repoRoot p)
           = normalizeToRepoRel repoRoot p"
proof (cases "normalizeToRepoRel repoRoot p")
  case None
  then show ?thesis by (simp add: normalizeToRepoRel_def)
next
  case (Some r)
  then have "bareFileName r" using assms by simp
  then have "normalizeToRepoRel repoRoot (Some r) = Some r" by (rule normalize_bare)
  then show ?thesis using Some by simp
qed

theorem normalize_idempotent_on_bare_witness:
  "normalizeToRepoRel ''/repo'' (Some ''/tmp/build/a.js'') = Some ''a.js''
   \<and> bareFileName ''a.js''
   \<and> normalizeToRepoRel ''/repo'' (normalizeToRepoRel ''/repo'' (Some ''/tmp/build/a.js''))
       = Some ''a.js''"
proof -
  have e: "normalizeToRepoRel ''/repo'' (Some ''/tmp/build/a.js'') = Some ''a.js''"
    by (simp add: normalizeToRepoRel_def sepNorm_def rootNorm_def
      replaceAll_def stripTrailingSlashes_def startsWith_def basename_def Let_def)
  have b: "bareFileName ''a.js''" by (simp add: bareFileName_def)
  show ?thesis
    using e b normalize_idempotent_on_bare [of "''/repo''" "Some ''/tmp/build/a.js''"]
    by simp
qed

text \<open>
  Idempotence as the specification states it fails as soon as the output keeps a
  directory part, for an absolute path and for a relative one: the second
  application reduces the output to the file name.
\<close>

theorem normalize_idempotent_counterexample:
  "normalizeToRepoRel ''/repo'' (Some ''/repo/lib/a.js'') = Some ''lib/a.js''
   \<and> normalizeToRepoRel ''/repo'' (normalizeToRepoRel ''/repo'' (Some ''/repo/lib/a.js''))
       = Some ''a.js''
   \<and> normalizeToRepoRel ''/repo'' (Some ''pkg/src/a.js'') = Some ''src/a.js''
   \<and> normalizeToRepoRel ''/repo'' (normalizeToRepoRel ''/repo'' (Some ''pkg/src/a.js''))
       = Some ''a.js''"
  by (simp add: normalizeToRepoRel_def sepNorm_def rootNorm_def
      replaceAll_def stripTrailingSlashes_def startsWith_def basename_def Let_def)

subsection \<open>Coverage trace parser\<close>

lemma lcovStep_malformed:
  assumes "malformedData toNumber raw"
  shows "lcovStep toNumber repoRoot st raw = st"
proof -
  have da: "startsWith raw ''DA:''" using assms by (simp add: malformedData_def)
  then have nsf: "\<not> startsWith raw ''SF:''" by (auto simp: startsWith_def)
  have neor: "raw \<noteq> ''end_of_record''" using da by (auto simp: startsWith_def)
  have "\<not> (isFinite (fst (daFields toNumber raw)) \<and> isFinite (snd (daFields toNumber raw)))"
    using assms by (simp add: malformedData_def)
  then have "(case (currentLines st, daFields toNumber raw) of
           (Some key, Finite lineNo, Finite hits) \<Rightarrow>
             st\<lparr> fileLineHits :=
                   AList.map_entry key (AList.update lineNo hits) (fileLineHits st) \<rparr>
         | _ \<Rightarrow> st) = st"
    by (cases "daFields toNumber raw") (auto split: option.splits jsnumber.splits)
  then show ?thesis using nsf neor by (simp add: lcovStep_def)
qed

text \<open>
  C3. The parser tolerates a malformed line-data record: when the lines of a
  trace are \<open>pre\<close>, the record, \<open>post\<close>, and the record's line number or hit count
  is not a finite number, the result is the result for the lines \<open>pre\<close>, \<open>post\<close>,
  and so the result for every trace with exactly these lines, the trace with the
  record deleted: no other entry is lost and the lines after it are parsed as
  before.
\<close>

theorem parseLcov_skips_malformed:
  assumes "splitLines lcovText = pre @ raw # post"
    and "malformedData toNumber raw"
  shows "parseLcov toNumber lcovText repoRoot = parseLines toNumber repoRoot (pre @ post)
     \<and> (\<forall>lcovText'. splitLines lcovText' = pre @ post \<longrightarrow>
           parseLcov toNumber lcovText repoRoot = parseLcov toNumber lcovText' repoRoot)"
  using assms by (simp add: parseLcov_def parseLines_def lcovStep_malformed)

lemma exampleTrace_lines:
  "splitLines exampleTrace =
     [''DA:9,9'', ''SF:/repo/src/a.js'', ''DA:1,1''] @ ''DA:x,5'' #
     [''DA:2,0'', ''DA:3,3'', ''end_of_record'', ''DA:7,7'', []]"
  by (simp add: exampleTrace_def)

lemma example_malformed: "malformedData decimalNumber ''DA:x,5''"
  by (simp add: malformedData_def startsWith_def daFields_def decimalNumber_def)

lemma example_parse:
  "parseLines decimalNumber ''/repo''
     ([''DA:9,9'', ''SF:/repo/src/a.js'', ''DA:1,1''] @
      [''DA:2,0'', ''DA:3,3'', ''end_of_record'', ''DA:7,7'', []])
   = [(Some ''src/a.js'', [(1, 1), (2, 0), (3, 3)])]"
  by (simp add: parseLines_def initialLcovState_def lcovStep_def startsWith_def truthy_def
      daFields_def decimalNumber_def normalizeToRepoRel_def sepNorm_def rootNorm_def
      replaceAll_def stripTrailingSlashes_def trim_def isWhiteSpace_def Let_def)

lemma exampleTraceRepaired_lines:
  "splitLines exampleTraceRepaired =
     [''DA:9,9'', ''SF:/repo/src/a.js'', ''DA:1,1''] @
     [''DA:2,0'', ''DA:3,3'', ''end_of_record'', ''DA:7,7'', []]"
  by (simp add: exampleTraceRepaired_def)

theorem parseLcov_skips_malformed_witness:
  "malformedData decimalNumber ''DA:x,5''
   \<and> parseLcov decimalNumber exampleTrace ''/repo''
       = [(Some ''src/a.js'', [(1, 1), (2, 0), (3, 3)])]
   \<and> parseLcov decimalNumber exampleTrace ''/repo''
       = parseLcov decimalNumber exampleTraceRepaired ''/repo''"
proof -
  note t = parseLcov_skips_malformed [OF exampleTrace_lines example_malformed, of "''/repo''"]
  have 1: "parseLcov decimalNumber exampleTrace ''/repo''
       = [(Some ''src/a.js'', [(1, 1), (2, 0), (3, 3)])]"
    using t [THEN conjunct1] example_parse by simp
  have 2: "parseLcov decimalNumber exampleTrace ''/repo''
       = parseLcov decimalNumber exampleTraceRepaired ''/repo''"
    using t [THEN conjunct2, THEN spec, of exampleTraceRepaired] exampleTraceRepaired_lines
    by simp
  show ?thesis using example_malformed 1 2 by simp
qed

lemma lcovStep_orphan:
  assumes "currentFile st = None" and "raw \<noteq> ''end_of_record''" and "\<not> startsWith raw ''SF:''"
  shows "lcovStep toNumber repoRoot st raw = st"
  using assms by (simp add: lcovStep_def truthy_def)

lemma lcovStep_currentFile_kept:
  assumes "raw \<noteq> ''end_of_record''" and "\<not> startsWith raw ''SF:''"
  shows "currentFile (lcovStep toNumber repoRoot st raw) = currentFile st"
  using assms
  by (cases "daFields toNumber raw")
     (auto simp: lcovStep_def split: option.splits jsnumber.splits)

lemma lcovStep_end_of_record:
  "currentFile (lcovStep toNumber repoRoot st ''end_of_record'') = None"
  by (simp add: lcovStep_def startsWith_def)

lemma foldl_dropOrphans:
  "(\<not> opn \<longrightarrow> currentFile st = None) \<Longrightarrow>
   foldl (lcovStep toNumber repoRoot) st (dropOrphans opn ls)
     = foldl (lcovStep toNumber repoRoot) st ls"
proof (induction ls arbitrary: st opn)
  case Nil
  then show ?case by simp
next
  case (Cons l ls)
  show ?case
  proof (cases "startsWith l ''SF:''")
    case True
    then show ?thesis using Cons.IH [of True] by simp
  next
    case nsf: False
    show ?thesis
    proof (cases "l = ''end_of_record''")
      case True
      then show ?thesis
        using nsf Cons.IH [of False "lcovStep toNumber repoRoot st l"]
        by (simp add: lcovStep_end_of_record)
    next
      case neor: False
      show ?thesis
      proof (cases "startsWith l ''DA:'' \<and> \<not> opn")
        case True
        then have "currentFile st = None" using Cons.prems by simp
        then have "lcovStep toNumber repoRoot st l = st"
          using neor nsf by (rule lcovStep_orphan)
        then show ?thesis using True nsf neor Cons.IH [of opn st] Cons.prems by simp
      next
        case False
        have "currentFile (lcovStep toNumber repoRoot st l) = currentFile st"
          using neor nsf by (rule lcovStep_currentFile_kept)
        then show ?thesis
          using False nsf neor Cons.prems Cons.IH [of opn "lcovStep toNumber repoRoot st l"]
          by auto
      qed
    qed
  qed
qed

text \<open>
  C10. A line-data record that stands where no file section is open contributes
  nothing: the parser returns for a trace what it returns for its lines without
  the orphan records, and so for every trace with exactly these lines.
\<close>

theorem parseLcov_ignores_orphans:
  "parseLcov toNumber lcovText repoRoot
     = parseLines toNumber repoRoot (dropOrphans False (splitLines lcovText))
   \<and> (\<forall>lcovText'. splitLines lcovText' = dropOrphans False (splitLines lcovText) \<longrightarrow>
         parseLcov toNumber lcovText repoRoot = parseLcov toNumber lcovText' repoRoot)"
  by (simp add: parseLcov_def parseLines_def initialLcovState_def foldl_dropOrphans)

lemma exampleTraceNoOrphans_lines:
  "splitLines exampleTraceNoOrphans =
     [''SF:/repo/src/a.js'', ''DA:1,1'', ''DA:x,5'', ''DA:2,0'', ''DA:3,3'',
      ''end_of_record'', []]"
  by (simp add: exampleTraceNoOrphans_def)

theorem parseLcov_ignores_orphans_witness:
  "dropOrphans False (splitLines exampleTrace) = splitLines exampleTraceNoOrphans
   \<and> parseLcov decimalNumber exampleTrace ''/repo''
       = parseLcov decimalNumber exampleTraceNoOrphans ''/repo''"
proof -
  have d: "dropOrphans False (splitLines exampleTrace) = splitLines exampleTraceNoOrphans"
    unfolding exampleTraceNoOrphans_lines by (simp add: exampleTrace_def startsWith_def)
  have "parseLcov decimalNumber exampleTrace ''/repo''
       = parseLcov decimalNumber exampleTraceNoOrphans ''/repo''"
    using parseLcov_ignores_orphans [of decimalNumber exampleTrace "''/repo''",
        THEN conjunct2, THEN spec, of exampleTraceNoOrphans] d
    by simp
  then show ?thesis using d by simp
qed

subsection \<open>Coverage summary reader\<close>

lemma readCoverageSummary_returns:
  assumes "doc \<noteq> JNull"
  shows "readCoverageSummary (Some doc) =
     Inr \<lparr> metrics =
             \<lparr> lines = orEmptyObject (getProp (totalOf doc) ''lines''),
               branches = orEmptyObject (getProp (totalOf doc) ''branches''),
               functionsMetric = orEmptyObject (getProp (totalOf doc) ''functions''),
               statements = orEmptyObject (getProp (totalOf doc) ''statements'') \<rparr>,
           perFile = assignedProperties (filter (\<lambda>(k, v). k \<noteq> ''total'') (entries doc)),
           perFileProto = assignedProto (filter (\<lambda>(k, v). k \<noteq> ''total'') (entries doc)),
           rawDoc = doc \<rparr>"
  using assms by (cases doc) (simp_all add: readCoverageSummary_def Let_def)

lemma empty_object_reads: "readsAsZero conv (JObj [])" "\<not> spec_allZero (JObj [])"
  by (simp_all add: readsAsZero_def pctRead_def countRead_def jsNumberOf_def spec_allZero_def)

text \<open>
  C7. For a summary document whose total record lacks one of the four metric
  sub-objects, the reader returns the empty object for that metric: its fields
  covered, total and pct are absent, and the renderers read them as 0.
\<close>

theorem readCoverageSummary_missing_metric:
  assumes "doc \<noteq> JNull"
  shows "\<exists>res. readCoverageSummary (Some doc) = Inr res
     \<and> (getProp (totalOf doc) ''lines'' = None \<longrightarrow>
           lines (metrics res) = JObj [] \<and> readsAsZero conv (lines (metrics res)))
     \<and> (getProp (totalOf doc) ''branches'' = None \<longrightarrow>
           branches (metrics res) = JObj [] \<and> readsAsZero conv (branches (metrics res)))
     \<and> (getProp (totalOf doc) ''functions'' = None \<longrightarrow>
           functionsMetric (metrics res) = JObj [] \<and> readsAsZero conv (functionsMetric (metrics res)))
     \<and> (getProp (totalOf doc) ''statements'' = None \<longrightarrow>
           statements (metrics res) = JObj [] \<and> readsAsZero conv (statements (metrics res)))"
  using readCoverageSummary_returns [OF assms]
  by (simp add: orEmptyObject_def empty_object_reads)

theorem readCoverageSummary_missing_metric_witness:
  "exampleSummary \<noteq> JNull
   \<and> getProp (totalOf exampleSummary) ''lines'' = None
   \<and> (\<exists>res. readCoverageSummary (Some exampleSummary) = Inr res
        \<and> lines (metrics res) = JObj []
        \<and> readsAsZero (\<lambda>v. NaN) (lines (metrics res))
        \<and> branches (metrics res) \<noteq> JObj [])"
proof -
  have n: "exampleSummary \<noteq> JNull" by (simp add: exampleSummary_def)
  have l: "getProp (totalOf exampleSummary) ''lines'' = None"
    by (simp add: exampleSummary_def totalOf_def orEmptyObject_def)
  have b: "getProp (totalOf exampleSummary) ''branches'' \<noteq> None"
    by (simp add: exampleSummary_def totalOf_def orEmptyObject_def)
  obtain res where r: "readCoverageSummary (Some exampleSummary) = Inr res"
    "lines (metrics res) = JObj []" "readsAsZero (\<lambda>v. NaN) (lines (metrics res))"
    using readCoverageSummary_missing_metric [OF n, of "\<lambda>v. NaN"] l by auto
  have "branches (metrics res) \<noteq> JObj []"
    using r(1) readCoverageSummary_returns [OF n]
    by (auto simp: exampleSummary_def totalOf_def orEmptyObject_def)
  then show ?thesis using n l r by auto
qed

text \<open>
  The returned metric is not a metric with the three fields at 0, as the
  specification states it: the fields are absent.
\<close>

theorem readCoverageSummary_all_zero_counterexample:
  "getProp (totalOf exampleSummary) ''lines'' = None
   \<and> returnedLines exampleSummary = Some (JObj [])
   \<and> getProp (JObj []) ''covered'' = None
   \<and> \<not> spec_allZero (JObj [])"
  by (simp add: returnedLines_def readCoverageSummary_def exampleSummary_def totalOf_def
      orEmptyObject_def spec_allZero_def)

subsection \<open>Comment synchronizer\<close>

lemma find_first:
  "\<forall>x \<in> set xs. \<not> P x \<Longrightarrow> P e \<Longrightarrow> find P (xs @ e # zs) = Some e"
  by (induction xs) auto

lemma find_none_append:
  "\<forall>x \<in> set xs. \<not> P x \<Longrightarrow> find P (xs @ zs) = find P zs"
  by (induction xs) auto

lemma find_decomp:
  "find P cs = Some e \<Longrightarrow> \<exists>xs ys. cs = xs @ e # ys \<and> P e \<and> (\<forall>x \<in> set xs. \<not> P x)"
proof (induction cs)
  case Nil
  then show ?case by simp
next
  case (Cons c cs)
  show ?case
  proof (cases "P c")
    case True
    then have "c = e" using Cons.prems by simp
    then have "c # cs = [] @ e # cs \<and> P e \<and> (\<forall>x \<in> set []. \<not> P x)" using True by simp
    then show ?thesis by blast
  next
    case False
    then have "find P cs = Some e" using Cons.prems by simp
    then obtain xs ys where "cs = xs @ e # ys" "P e" "\<forall>x \<in> set xs. \<not> P x"
      using Cons.IH by blast
    then have "c # cs = (c # xs) @ e # ys \<and> P e \<and> (\<forall>x \<in> set (c # xs). \<not> P x)"
      using False by simp
    then show ?thesis by blast
  qed
qed

lemma first_page_decomp:
  assumes "find P (take n cs) = Some e"
  shows "\<exists>xs ys. cs = xs @ e # ys \<and> length xs < n \<and> P e \<and> (\<forall>x \<in> set xs. \<not> P x)"
proof -
  obtain xs ys' where d: "take n cs = xs @ e # ys'" "P e" "\<forall>x \<in> set xs. \<not> P x"
    using find_decomp [OF assms] by blast
  have "length (take n cs) \<le> n" by simp
  then have l: "length xs < n" using d(1) by simp
  have "cs = take n cs @ drop n cs" by simp
  then have "cs = xs @ e # (ys' @ drop n cs)" using d(1) by simp
  then show ?thesis using l d by blast
qed

lemma first_page_find:
  assumes "length xs < n" "P e" "\<forall>x \<in> set xs. \<not> P x"
  shows "find P (take n (xs @ e # ys)) = Some e"
proof -
  have "take n (xs @ e # ys) = xs @ e # take (n - Suc (length xs)) ys"
    using assms(1) by (simp add: take_Cons')
  then show ?thesis using assms find_first by metis
qed

lemma other_ids:
  assumes "distinct (map commentId (xs @ e # ys))"
  shows "\<forall>x \<in> set xs. commentId x \<noteq> commentId e"
    and "\<forall>y \<in> set ys. commentId y \<noteq> commentId e"
proof -
  have n: "commentId e \<notin> commentId ` set xs" "commentId e \<notin> commentId ` set ys"
    using assms by auto
  show "\<forall>x \<in> set xs. commentId x \<noteq> commentId e" using n(1) by (metis imageI)
  show "\<forall>y \<in> set ys. commentId y \<noteq> commentId e" using n(2) by (metis imageI)
qed

lemma update_decomp:
  assumes "distinct (map commentId (xs @ e # ys))"
  shows "map (\<lambda>c. if commentId c = commentId e then c\<lparr> commentBody := Some b \<rparr> else c)
           (xs @ e # ys) = xs @ e\<lparr> commentBody := Some b \<rparr> # ys"
  using other_ids [OF assms] by (simp add: map_idI)


text \<open>A request that is answered ok consumes one answer of the service.\<close>

lemma respond_ok:
  assumes "answersOk (Suc n) r"
  shows "respond r = (None, r\<lparr> refusals := drop (Suc 0) (refusals r) \<rparr>)"
proof (cases "refusals r")
  case Nil
  then have "r\<lparr> refusals := drop (Suc 0) (refusals r) \<rparr> = r" by simp
  then show ?thesis using Nil by (simp add: respond_def)
next
  case (Cons a rest)
  then have "a = None" using assms by (simp add: answersOk_def)
  then show ?thesis using Cons by (simp add: respond_def)
qed

lemma answersOk_mono:
  assumes "answersOk n r" and "m \<le> n"
  shows "answersOk m r"
proof -
  have "set (take m (refusals r)) \<subseteq> set (take n (refusals r))"
    using assms(2) by (rule set_take_subset_set_take)
  then show ?thesis using assms(1) unfolding answersOk_def by blast
qed

lemma answersOk_drop:
  assumes "answersOk k r" and "refusals r' = drop m (refusals r)" and "m + n \<le> k"
  shows "answersOk n r'"
proof -
  have "take n (drop m (refusals r)) = drop m (take (m + n) (refusals r))"
    by (simp add: drop_take)
  then have "set (take n (refusals r')) \<subseteq> set (take (m + n) (refusals r))"
    using assms(2) set_drop_subset by metis
  moreover have "set (take (m + n) (refusals r)) \<subseteq> set (take k (refusals r))"
    using assms(3) by (rule set_take_subset_set_take)
  ultimately show ?thesis using assms(1) unfolding answersOk_def by blast
qed

lemma apiList_ok:
  assumes "answersOk (Suc n) r"
  shows "apiList r = (Inr (firstPage r), r\<lparr> refusals := drop (Suc 0) (refusals r) \<rparr>)"
  by (simp add: apiList_def respond_ok [OF assms] firstPage_def)

lemma apiCreate_ok:
  assumes "answersOk (Suc n) r"
  shows "apiCreate body r
           = (Inr (),
              r\<lparr> comments := comments r @ [\<lparr> commentId = nextId r, commentBody = Some body \<rparr>],
                 nextId := Suc (nextId r),
                 refusals := drop (Suc 0) (refusals r) \<rparr>)"
  by (simp add: apiCreate_def respond_ok [OF assms])

lemma apiUpdate_ok:
  assumes "answersOk (Suc n) r" and "comments r = xs @ e # ys"
    and "distinct (map commentId (comments r))"
  shows "apiUpdate (commentId e) body r
           = (Inr (),
              r\<lparr> comments := xs @ e\<lparr> commentBody := Some body \<rparr> # ys,
                 refusals := drop (Suc 0) (refusals r) \<rparr>)"
proof -
  have u: "map (\<lambda>c. if commentId c = commentId e then c\<lparr> commentBody := Some body \<rparr> else c)
           (xs @ e # ys) = xs @ e\<lparr> commentBody := Some body \<rparr> # ys"
    using assms(3) unfolding assms(2) by (rule update_decomp)
  show ?thesis using u by (simp add: apiUpdate_def respond_ok [OF assms(1)] assms(2))
qed


lemma upsert_not_found:
  assumes "answersOk 2 r" and "find (hasMarker marker) (firstPage r) = None"
  shows "upsertPrComment strategy marker body r
           = (Inr (),
              r\<lparr> comments := comments r @ [\<lparr> commentId = nextId r, commentBody = Some body \<rparr>],
                 nextId := Suc (nextId r),
                 refusals := drop 2 (refusals r) \<rparr>)"
proof -
  let ?r1 = "r\<lparr> refusals := drop (Suc 0) (refusals r) \<rparr>"
  have o1: "answersOk (Suc 0) r" using assms(1) by (rule answersOk_mono) simp
  have o2: "answersOk (Suc 0) ?r1"
    using assms(1) by (rule answersOk_drop [where m = "Suc 0"]) simp_all
  have l: "apiList r = (Inr (firstPage r), ?r1)" using o1 by (rule apiList_ok)
  show ?thesis
    using assms(2) by (simp add: upsertPrComment_def l apiCreate_ok [OF o2] numeral_2_eq_2)
qed

lemma upsert_update_found:
  assumes "answersOk 2 r"
    and "comments r = xs @ e # ys" and "length xs < 100" and "hasMarker marker e"
    and "\<forall>x \<in> set xs. \<not> hasMarker marker x"
    and "distinct (map commentId (comments r))"
    and "strategy \<noteq> ''ADD''" and "strategy \<noteq> ''REMOVE''"
  shows "upsertPrComment strategy marker body r
           = (Inr (),
              r\<lparr> comments := xs @ e\<lparr> commentBody := Some body \<rparr> # ys,
                 refusals := drop 2 (refusals r) \<rparr>)"
proof -
  let ?r1 = "r\<lparr> refusals := drop (Suc 0) (refusals r) \<rparr>"
  have o1: "answersOk (Suc 0) r" using assms(1) by (rule answersOk_mono) simp
  have o2: "answersOk (Suc 0) ?r1"
    using assms(1) by (rule answersOk_drop [where m = "Suc 0"]) simp_all
  have l: "apiList r = (Inr (firstPage r), ?r1)" using o1 by (rule apiList_ok)
  have f: "find (hasMarker marker) (firstPage r) = Some e"
    unfolding firstPage_def assms(2) using assms(3,4,5) by (rule first_page_find)
  have u: "apiUpdate (commentId e) body ?r1
             = (Inr (),
                ?r1\<lparr> comments := xs @ e\<lparr> commentBody := Some body \<rparr> # ys,
                    refusals := drop (Suc 0) (refusals ?r1) \<rparr>)"
    using o2 by (rule apiUpdate_ok) (use assms(2,6) in simp_all)
  show ?thesis
    using f assms(7,8) by (simp add: upsertPrComment_def l u numeral_2_eq_2)
qed


lemma hasMarker_body [simp]:
  "hasMarker marker (c\<lparr> commentBody := Some b \<rparr>) = includesStr b marker"
  "hasMarker marker \<lparr> commentId = i, commentBody = Some b \<rparr> = includesStr b marker"
  by (simp_all add: hasMarker_def)

lemma find_None_filter: "find P xs = None \<Longrightarrow> filter P xs = []"
  by (induction xs) (auto split: if_splits)

lemma filter_Nil_none: "filter P xs = [] \<Longrightarrow> \<forall>x \<in> set xs. \<not> P x"
  by (simp add: filter_empty_conv)


lemma update_marked_once:
  assumes "answersOk 4 r"
    and "comments r = xs @ e # ys" and "length xs < 100" and "hasMarker marker e"
    and "\<forall>x \<in> set xs. \<not> hasMarker marker x"
    and "filter (hasMarker marker) ys = []"
    and "distinct (map commentId (comments r))"
    and "includesStr body1 marker" and "includesStr body2 marker"
  shows "\<exists>r2. upsertTwice ''UPDATE'' marker body1 body2 r = (Inr (), Inr (), r2)
     \<and> (\<exists>c. markedComments marker r2 = [c] \<and> commentBody c = Some body2
            \<and> commentId c = commentId e)"
proof -
  let ?e1 = "e\<lparr> commentBody := Some body1 \<rparr>"
  let ?r1 = "r\<lparr> comments := xs @ ?e1 # ys, refusals := drop 2 (refusals r) \<rparr>"
  let ?e2 = "?e1\<lparr> commentBody := Some body2 \<rparr>"
  let ?r2 = "?r1\<lparr> comments := xs @ ?e2 # ys, refusals := drop 2 (refusals ?r1) \<rparr>"
  have o1: "answersOk 2 r" using assms(1) by (rule answersOk_mono) simp
  have o2: "answersOk 2 ?r1"
    using assms(1) by (rule answersOk_drop [where m = 2]) simp_all
  have s1: "upsertPrComment ''UPDATE'' marker body1 r = (Inr (), ?r1)"
    using o1 assms(2,3,4,5,7) by (rule upsert_update_found) simp_all
  have d1: "distinct (map commentId (comments ?r1))" using assms(7) by (simp add: assms(2))
  have s2: "upsertPrComment ''UPDATE'' marker body2 ?r1 = (Inr (), ?r2)"
    using o2
    by (rule upsert_update_found [where xs = xs and ys = ys])
       (use assms(3,5,8) d1 in simp_all)
  have fx: "filter (hasMarker marker) xs = []" using assms(5) by (simp add: filter_empty_conv)
  have t: "upsertTwice ''UPDATE'' marker body1 body2 r = (Inr (), Inr (), ?r2)"
    by (simp add: upsertTwice_def s1 s2)
  have m: "markedComments marker ?r2 = [?e2]"
    using fx assms(6,9) by (simp add: markedComments_def)
  show ?thesis
  proof (intro exI conjI)
    show "upsertTwice ''UPDATE'' marker body1 body2 r = (Inr (), Inr (), ?r2)" by (rule t)
    show "markedComments marker ?r2 = [?e2]" by (rule m)
    show "commentBody ?e2 = Some body2" by simp
    show "commentId ?e2 = commentId e" by simp
  qed
qed

lemma create_then_update:
  assumes "answersOk 4 r"
    and "find (hasMarker marker) (firstPage r) = None" and "length (comments r) < 100"
    and "wellFormed r"
    and "includesStr body1 marker" and "includesStr body2 marker"
  shows "\<exists>r2. upsertTwice ''UPDATE'' marker body1 body2 r = (Inr (), Inr (), r2)
     \<and> (\<exists>c. markedComments marker r2 = [c] \<and> commentBody c = Some body2)"
proof -
  let ?new = "\<lparr> commentId = nextId r, commentBody = Some body1 \<rparr>"
  let ?r1 = "r\<lparr> comments := comments r @ [?new], nextId := Suc (nextId r),
                 refusals := drop 2 (refusals r) \<rparr>"
  let ?e2 = "?new\<lparr> commentBody := Some body2 \<rparr>"
  let ?r2 = "?r1\<lparr> comments := comments r @ ?e2 # [], refusals := drop 2 (refusals ?r1) \<rparr>"
  have o1: "answersOk 2 r" using assms(1) by (rule answersOk_mono) simp
  have o2: "answersOk 2 ?r1"
    using assms(1) by (rule answersOk_drop [where m = 2]) simp_all
  have all: "firstPage r = comments r" using assms(3) by (simp add: firstPage_def)
  have fx: "filter (hasMarker marker) (comments r) = []"
    using assms(2) all find_None_filter by metis
  then have none: "\<forall>x \<in> set (comments r). \<not> hasMarker marker x" by (rule filter_Nil_none)
  have s1: "upsertPrComment ''UPDATE'' marker body1 r = (Inr (), ?r1)"
    using o1 assms(2) by (rule upsert_not_found)
  have c1: "comments ?r1 = comments r @ ?new # []" by simp
  have "nextId r \<notin> commentId ` set (comments r)"
    using assms(4) by (auto simp: wellFormed_def)
  then have d1: "distinct (map commentId (comments ?r1))"
    using assms(4) by (simp add: wellFormed_def)
  have s2: "upsertPrComment ''UPDATE'' marker body2 ?r1 = (Inr (), ?r2)"
    using o2 c1 assms(3) _ none d1
    by (rule upsert_update_found) (use assms(5) in simp_all)
  have t: "upsertTwice ''UPDATE'' marker body1 body2 r = (Inr (), Inr (), ?r2)"
    by (simp add: upsertTwice_def s1 s2)
  have m: "markedComments marker ?r2 = [?e2]"
    using fx assms(6) by (simp add: markedComments_def)
  show ?thesis
  proof (intro exI conjI)
    show "upsertTwice ''UPDATE'' marker body1 body2 r = (Inr (), Inr (), ?r2)" by (rule t)
    show "markedComments marker ?r2 = [?e2]" by (rule m)
    show "commentBody ?e2 = Some body2" by simp
  qed
qed

text \<open>
  C4. Strategy UPDATE run twice with the same marker and marker-bearing bodies,
  from a pull request with at most one marked comment whose single listing
  suffices (the marked comment is among the first 100 comments, or there are
  fewer than 100 comments), on a service whose identifiers are distinct and
  fresh and that answers the four requests of the two runs (each a listing, then
  a creation or an edit) ok: both calls return without an error and exactly one
  comment contains the marker, with the body of the second call.
\<close>

theorem upsert_update_twice:
  assumes wf: "wellFormed r"
    and atmost: "length (markedComments marker r) \<le> 1"
    and page: "firstPageSuffices marker r"
    and b1: "includesStr body1 marker" and b2: "includesStr body2 marker"
    and ok: "answersOk 4 r"
  shows "\<exists>r2. upsertTwice ''UPDATE'' marker body1 body2 r = (Inr (), Inr (), r2)
     \<and> (\<exists>c. markedComments marker r2 = [c] \<and> commentBody c = Some body2)"
proof (cases "find (hasMarker marker) (firstPage r)")
  case None
  then have "length (comments r) < 100" using page by (simp add: firstPageSuffices_def)
  with ok None show ?thesis using wf b1 b2 by (rule create_then_update)
next
  case (Some e)
  then have f: "find (hasMarker marker) (take 100 (comments r)) = Some e"
    by (simp add: firstPage_def)
  obtain xs ys where d: "comments r = xs @ e # ys" "length xs < 100" "hasMarker marker e"
    "\<forall>x \<in> set xs. \<not> hasMarker marker x"
    using first_page_decomp [OF f] by blast
  have fx: "filter (hasMarker marker) xs = []" using d(4) by (simp add: filter_empty_conv)
  have "length (e # filter (hasMarker marker) ys) \<le> 1"
    using atmost d(3) fx by (simp add: markedComments_def d(1))
  then have fy: "filter (hasMarker marker) ys = []" by simp
  have dist: "distinct (map commentId (comments r))" using wf by (simp add: wellFormed_def)
  show ?thesis using update_marked_once [OF ok d fy dist b1 b2] by blast
qed

lemma includes_prefix: "includesStr (m @ t) m"
  using includes_decomp [of "m @ t" m] by (metis append_Nil)

lemma markedBody_marked: "includesStr (markedBody s) actionMarker"
  unfolding markedBody_def by (rule includes_prefix)

lemma plain_unmarked:
  "\<not> includesStr ''ok'' actionMarker" "\<not> includesStr ''looks good'' actionMarker"
  "\<not> includesStr ''plain'' actionMarker"
  by (simp_all add: actionMarker_def startsWith_def)

lemma oneMarked_facts:
  "wellFormed oneMarked"
  "markedComments actionMarker oneMarked = [\<lparr> commentId = 9, commentBody = Some (markedBody ''old'') \<rparr>]"
  "find (hasMarker actionMarker) (firstPage oneMarked)
     = Some \<lparr> commentId = 9, commentBody = Some (markedBody ''old'') \<rparr>"
  "firstPageSuffices actionMarker oneMarked"
  "answersOk n oneMarked"
  by (simp_all add: wellFormed_def oneMarked_def markedComments_def firstPage_def
      firstPageSuffices_def answersOk_def hasMarker_def markedBody_marked plain_unmarked
      del: includesStr.simps)


theorem upsert_update_twice_witness:
  "wellFormed oneMarked
   \<and> length (markedComments actionMarker oneMarked) \<le> 1
   \<and> firstPageSuffices actionMarker oneMarked
   \<and> includesStr (markedBody ''one'') actionMarker
   \<and> includesStr (markedBody ''two'') actionMarker
   \<and> answersOk 4 oneMarked
   \<and> (\<exists>r2. upsertTwice ''UPDATE'' actionMarker (markedBody ''one'') (markedBody ''two'') oneMarked
               = (Inr (), Inr (), r2)
         \<and> (\<exists>c. markedComments actionMarker r2 = [c] \<and> commentBody c = Some (markedBody ''two'')))"
proof -
  have l: "length (markedComments actionMarker oneMarked) \<le> 1"
    by (simp add: oneMarked_facts(2))
  show ?thesis
    using upsert_update_twice [OF oneMarked_facts(1) l oneMarked_facts(4)
        markedBody_marked markedBody_marked oneMarked_facts(5), of "''one''" "''two''"]
      oneMarked_facts(1,4,5) l markedBody_marked
    by simp
qed

lemma hundredPlain_facts:
  "length hundredPlain = 100"
  "find (hasMarker actionMarker) hundredPlain = None"
  "filter (hasMarker actionMarker) hundredPlain = []"
proof -
  show "length hundredPlain = 100" by (simp add: hundredPlain_def)
  have "\<forall>c \<in> set hundredPlain. \<not> hasMarker actionMarker c"
    by (auto simp: hundredPlain_def hasMarker_def plain_unmarked simp del: includesStr.simps)
  then show "filter (hasMarker actionMarker) hundredPlain = []"
    by (simp add: filter_empty_conv)
  then show "find (hasMarker actionMarker) hundredPlain = None"
    by (simp add: find_None_iff filter_empty_conv)
qed

lemma refuses_facts:
  "wellFormed refusesThird" "wellFormed refusesFourth"
  "markedComments actionMarker refusesThird
     = [\<lparr> commentId = 9, commentBody = Some (markedBody ''old'') \<rparr>]"
  "markedComments actionMarker refusesFourth
     = [\<lparr> commentId = 9, commentBody = Some (markedBody ''old'') \<rparr>]"
  "find (hasMarker actionMarker) (firstPage refusesThird)
     = Some \<lparr> commentId = 9, commentBody = Some (markedBody ''old'') \<rparr>"
  "firstPageSuffices actionMarker refusesFourth"
  by (simp_all add: wellFormed_def refusesThird_def refusesFourth_def oneMarked_def
      markedComments_def firstPage_def firstPageSuffices_def hasMarker_def markedBody_marked
      plain_unmarked del: includesStr.simps)


text \<open>
  Without these conditions two UPDATE runs do not end with one marked comment
  that has the second body: of two marked comments only the first is edited; with
  a full first page of other comments each run creates a comment of its own; and
  when the service refuses the edit of the second run, that run throws and the
  marked comment keeps the body of the first.
\<close>

theorem upsert_update_twice_counterexample:
  "upsertTwice ''UPDATE'' actionMarker (markedBody ''one'') (markedBody ''two'') twoMarked
     = (Inr (), Inr (),
        \<lparr> comments = [\<lparr> commentId = 3, commentBody = Some (markedBody ''two'') \<rparr>,
                      \<lparr> commentId = 4, commentBody = Some (markedBody ''second'') \<rparr>],
          nextId = 5, refusals = [] \<rparr>)
   \<and> markedComments actionMarker
        \<lparr> comments = [\<lparr> commentId = 3, commentBody = Some (markedBody ''two'') \<rparr>,
                      \<lparr> commentId = 4, commentBody = Some (markedBody ''second'') \<rparr>],
          nextId = 5, refusals = [] \<rparr>
      = [\<lparr> commentId = 3, commentBody = Some (markedBody ''two'') \<rparr>,
         \<lparr> commentId = 4, commentBody = Some (markedBody ''second'') \<rparr>]
   \<and> markedComments actionMarker fullPage = []
   \<and> upsertTwice ''UPDATE'' actionMarker (markedBody ''one'') (markedBody ''two'') fullPage
       = (Inr (), Inr (),
          \<lparr> comments = hundredPlain
                 @ [\<lparr> commentId = 100, commentBody = Some (markedBody ''one'') \<rparr>,
                    \<lparr> commentId = 101, commentBody = Some (markedBody ''two'') \<rparr>],
            nextId = 102, refusals = [] \<rparr>)
   \<and> markedComments actionMarker
        \<lparr> comments = hundredPlain
               @ [\<lparr> commentId = 100, commentBody = Some (markedBody ''one'') \<rparr>,
                  \<lparr> commentId = 101, commentBody = Some (markedBody ''two'') \<rparr>],
          nextId = 102, refusals = [] \<rparr>
      = [\<lparr> commentId = 100, commentBody = Some (markedBody ''one'') \<rparr>,
         \<lparr> commentId = 101, commentBody = Some (markedBody ''two'') \<rparr>]
   \<and> wellFormed refusesFourth
   \<and> markedComments actionMarker refusesFourth
       = [\<lparr> commentId = 9, commentBody = Some (markedBody ''old'') \<rparr>]
   \<and> firstPageSuffices actionMarker refusesFourth
   \<and> includesStr (markedBody ''one'') actionMarker
   \<and> includesStr (markedBody ''two'') actionMarker
   \<and> upsertTwice ''UPDATE'' actionMarker (markedBody ''one'') (markedBody ''two'') refusesFourth
       = (Inr (), Inl (ApiError 502),
          \<lparr> comments = [\<lparr> commentId = 7, commentBody = Some ''looks good'' \<rparr>,
                        \<lparr> commentId = 9, commentBody = Some (markedBody ''one'') \<rparr>],
            nextId = 12, refusals = [] \<rparr>)
   \<and> markedComments actionMarker
        \<lparr> comments = [\<lparr> commentId = 7, commentBody = Some ''looks good'' \<rparr>,
                      \<lparr> commentId = 9, commentBody = Some (markedBody ''one'') \<rparr>],
          nextId = 12, refusals = [] \<rparr>
      = [\<lparr> commentId = 9, commentBody = Some (markedBody ''one'') \<rparr>]"
proof -
  have a: "upsertTwice ''UPDATE'' actionMarker (markedBody ''one'') (markedBody ''two'') twoMarked
     = (Inr (), Inr (),
        \<lparr> comments = [\<lparr> commentId = 3, commentBody = Some (markedBody ''two'') \<rparr>,
                      \<lparr> commentId = 4, commentBody = Some (markedBody ''second'') \<rparr>],
          nextId = 5, refusals = [] \<rparr>)"
    by (simp add: upsertTwice_def upsertPrComment_def twoMarked_def apiList_def apiUpdate_def
        respond_def firstPage_def hasMarker_def markedBody_marked)
  have a': "markedComments actionMarker
        \<lparr> comments = [\<lparr> commentId = 3, commentBody = Some (markedBody ''two'') \<rparr>,
                      \<lparr> commentId = 4, commentBody = Some (markedBody ''second'') \<rparr>],
          nextId = 5, refusals = [] \<rparr>
      = [\<lparr> commentId = 3, commentBody = Some (markedBody ''two'') \<rparr>,
         \<lparr> commentId = 4, commentBody = Some (markedBody ''second'') \<rparr>]"
    by (simp add: markedComments_def hasMarker_def markedBody_marked)
  have b0: "markedComments actionMarker fullPage = []"
    by (simp add: markedComments_def fullPage_def hundredPlain_facts)
  let ?one = "\<lparr> commentId = 100, commentBody = Some (markedBody ''one'') \<rparr>"
  let ?r1 = "\<lparr> comments = hundredPlain @ [?one], nextId = 101, refusals = [] \<rparr>"
  have l1: "apiList fullPage = (Inr hundredPlain, fullPage)"
    by (simp add: apiList_def respond_def firstPage_def fullPage_def hundredPlain_facts)
  have s1: "upsertPrComment ''UPDATE'' actionMarker (markedBody ''one'') fullPage = (Inr (), ?r1)"
    by (simp only: upsertPrComment_def l1)
       (simp add: hundredPlain_facts apiCreate_def respond_def fullPage_def)
  have l2: "apiList ?r1 = (Inr hundredPlain, ?r1)"
    by (simp add: apiList_def respond_def firstPage_def hundredPlain_facts)
  have s2: "upsertPrComment ''UPDATE'' actionMarker (markedBody ''two'') ?r1
       = (Inr (),
          \<lparr> comments = hundredPlain
                 @ [?one, \<lparr> commentId = 101, commentBody = Some (markedBody ''two'') \<rparr>],
            nextId = 102, refusals = [] \<rparr>)"
    by (simp add: upsertPrComment_def l2 hundredPlain_facts apiCreate_def respond_def)
  have b: "upsertTwice ''UPDATE'' actionMarker (markedBody ''one'') (markedBody ''two'') fullPage
       = (Inr (), Inr (),
          \<lparr> comments = hundredPlain
                 @ [\<lparr> commentId = 100, commentBody = Some (markedBody ''one'') \<rparr>,
                    \<lparr> commentId = 101, commentBody = Some (markedBody ''two'') \<rparr>],
            nextId = 102, refusals = [] \<rparr>)"
    by (simp add: upsertTwice_def s1 s2)
  have b': "markedComments actionMarker
        \<lparr> comments = hundredPlain
               @ [\<lparr> commentId = 100, commentBody = Some (markedBody ''one'') \<rparr>,
                  \<lparr> commentId = 101, commentBody = Some (markedBody ''two'') \<rparr>],
          nextId = 102, refusals = [] \<rparr>
      = [\<lparr> commentId = 100, commentBody = Some (markedBody ''one'') \<rparr>,
         \<lparr> commentId = 101, commentBody = Some (markedBody ''two'') \<rparr>]"
    by (simp add: markedComments_def hundredPlain_facts markedBody_marked)
  have c: "upsertTwice ''UPDATE'' actionMarker (markedBody ''one'') (markedBody ''two'')
         refusesFourth
       = (Inr (), Inl (ApiError 502),
          \<lparr> comments = [\<lparr> commentId = 7, commentBody = Some ''looks good'' \<rparr>,
                        \<lparr> commentId = 9, commentBody = Some (markedBody ''one'') \<rparr>],
            nextId = 12, refusals = [] \<rparr>)"
    by (simp add: upsertTwice_def upsertPrComment_def refusesFourth_def oneMarked_def
        apiList_def apiUpdate_def respond_def firstPage_def hasMarker_def markedBody_marked
        plain_unmarked del: includesStr.simps)
  have c': "markedComments actionMarker
        \<lparr> comments = [\<lparr> commentId = 7, commentBody = Some ''looks good'' \<rparr>,
                      \<lparr> commentId = 9, commentBody = Some (markedBody ''one'') \<rparr>],
          nextId = 12, refusals = [] \<rparr>
      = [\<lparr> commentId = 9, commentBody = Some (markedBody ''one'') \<rparr>]"
    by (simp add: markedComments_def hasMarker_def markedBody_marked plain_unmarked
        del: includesStr.simps)
  show ?thesis
    using a a' b0 b b' refuses_facts(2,4,6) markedBody_marked markedBody_marked c c'
    by (intro conjI)
qed

subsection \<open>HTML escaping\<close>

lemma replaceAll_append: "replaceAll c r (a @ b) = replaceAll c r a @ replaceAll c r b"
  by (simp add: replaceAll_def)

lemma replaceAll_concat_map:
  "replaceAll c r (concat (map f s)) = concat (map (\<lambda>x. replaceAll c r (f x)) s)"
  by (induction s) (simp_all add: replaceAll_append, simp add: replaceAll_def)

lemma escapeHtml_chars: "escapeHtml s = concat (map escapeChar s)"
proof -
  have "escapeHtml s =
    concat (map (\<lambda>x. replaceAll singleQuote ''&#39;''
       (replaceAll doubleQuote ''&quot;''
          (replaceAll (CHR ''>'') ''&gt;''
             (replaceAll (CHR ''<'') ''&lt;'' (if x = CHR ''&'' then ''&amp;'' else [x]))))) s)"
    unfolding escapeHtml_def replaceAll_def [of "CHR ''&''"]
    by (simp only: replaceAll_concat_map)
  also have "\<dots> = concat (map escapeChar s)"
    by (rule arg_cong [where f = concat], rule map_cong)
       (simp_all add: replaceAll_def escapeChar_def)
  finally show ?thesis .
qed

lemma escapeChar_cases:
  "(c \<notin> reservedChars \<and> escapeChar c = [c]) \<or> (c \<in> reservedChars \<and> escapeChar c \<in> set entities)"
  by (simp add: escapeChar_def reservedChars_def entities_def)

lemma escapedText_chars: "escapedText (concat (map escapeChar s))"
proof (induction s)
  case Nil
  show ?case by (simp add: escaped_empty)
next
  case (Cons c s)
  show ?case
  proof (cases "c \<in> reservedChars")
    case True
    then have "escapeChar c \<in> set entities" using escapeChar_cases [of c] by simp
    then show ?thesis using Cons.IH by (simp add: escaped_entity)
  next
    case False
    then have "escapeChar c = [c]" using escapeChar_cases [of c] by simp
    then show ?thesis using False Cons.IH by (simp add: escaped_plain)
  qed
qed

lemma entity_chars:
  assumes "e \<in> set entities"
  shows "set e \<inter> {CHR ''<'', CHR ''>'', doubleQuote, singleQuote} = {}"
    and "\<exists>t. e = CHR ''&'' # t \<and> CHR ''&'' \<notin> set t"
  using assms by (auto simp: entities_def)

lemma escapedText_markup_free:
  "escapedText t \<Longrightarrow> set t \<inter> {CHR ''<'', CHR ''>'', doubleQuote, singleQuote} = {}"
proof (induction rule: escapedText.induct)
  case escaped_empty
  show ?case by simp
next
  case (escaped_plain c s)
  then show ?case by (auto simp: reservedChars_def)
next
  case (escaped_entity e s)
  then show ?case using entity_chars(1) [of e] by (simp add: Int_Un_distrib2)
qed

lemma escapedText_ampersand:
  "escapedText t \<Longrightarrow> t = pre @ CHR ''&'' # post \<Longrightarrow>
     \<exists>e \<in> set entities. startsWith (CHR ''&'' # post) e"
proof (induction arbitrary: pre rule: escapedText.induct)
  case escaped_empty
  then show ?case by simp
next
  case (escaped_plain c s)
  show ?case
  proof (cases pre)
    case Nil
    then have "c = CHR ''&''" using escaped_plain.prems by simp
    then show ?thesis using escaped_plain.hyps(1) by (simp add: reservedChars_def)
  next
    case (Cons a pre')
    then have "s = pre' @ CHR ''&'' # post" using escaped_plain.prems by simp
    then show ?thesis by (rule escaped_plain.IH)
  qed
next
  case (escaped_entity e s)
  obtain t where e: "e = CHR ''&'' # t" "CHR ''&'' \<notin> set t"
    using entity_chars(2) [OF escaped_entity.hyps(1)] by blast
  from escaped_entity.prems
  consider us where "e = pre @ us" "us @ s = CHR ''&'' # post"
    | us where "e @ us = pre" "s = us @ CHR ''&'' # post"
    by (auto simp: append_eq_append_conv2)
  then show ?case
  proof cases
    case 1
    show ?thesis
    proof (cases us)
      case Nil
      then have "s = [] @ CHR ''&'' # post" using 1 by simp
      then show ?thesis by (rule escaped_entity.IH)
    next
      case (Cons u us')
      then have u: "u = CHR ''&''" using 1(2) by simp
      have "pre = []"
      proof (cases pre)
        case Nil
        then show ?thesis .
      next
        case (Cons p pre')
        then have "t = pre' @ CHR ''&'' # us'" using 1(1) e(1) \<open>us = u # us'\<close> u by simp
        then show ?thesis using e(2) by simp
      qed
      then have "CHR ''&'' # post = e @ s" using 1 by simp
      then have "startsWith (CHR ''&'' # post) e" by simp
      then show ?thesis using escaped_entity.hyps(1) by blast
    qed
  next
    case 2
    show ?thesis using 2(2) by (rule escaped_entity.IH)
  qed
qed

lemma escapeHtml_markup_free:
  "set (escapeHtml s) \<inter> {CHR ''<'', CHR ''>'', doubleQuote, singleQuote} = {}"
  using escapedText_markup_free [OF escapedText_chars [of s]] by (simp add: escapeHtml_chars)

lemma trim_framed:
  assumes "\<forall>c \<in> set a. isWhiteSpace c" and "\<forall>c \<in> set b. isWhiteSpace c"
    and "\<not> isWhiteSpace x" and "\<not> isWhiteSpace y"
  shows "trim (a @ x # m @ y # b) = x # m @ [y]"
proof -
  have 1: "dropWhile isWhiteSpace (a @ x # m @ y # b) = x # m @ y # b"
    using assms(1,3) by (simp add: dropWhile_append2)
  have "rev (x # m @ y # b) = rev b @ y # rev m @ [x]" by simp
  moreover have "dropWhile isWhiteSpace (rev b @ y # rev m @ [x])
      = dropWhile isWhiteSpace (y # rev m @ [x])"
    by (rule dropWhile_append2) (use assms(2) in auto)
  moreover have "dropWhile isWhiteSpace (y # rev m @ [x]) = y # rev m @ [x]"
    using assms(4) by simp
  ultimately show ?thesis unfolding trim_def 1 by simp
qed

lemma spaces_white: "\<forall>c \<in> set ([newline] @ spaces n). isWhiteSpace c"
  by (auto simp: spaces_def isWhiteSpace_def)

lemma htmlRow_shape:
  "htmlRow showNumber f i line = rowBefore f i @ escapeHtml line @ rowAfter showNumber f i"
proof -
  let ?m = "''div class='' @ [doubleQuote] @ ''row '' @ statusClass (classify f (i + 1))
       @ [doubleQuote] @ ''>''
     @ [newline] @ spaces 14 @ ''<span class='' @ [doubleQuote] @ ''ln'' @ [doubleQuote]
       @ ''>'' @ showNat (i + 1) @ ''</span>''
     @ [newline] @ spaces 14 @ ''<span class='' @ [doubleQuote] @ ''code''
       @ [doubleQuote] @ ''>'' @ escapeHtml line
     @ ''</span>'' @ [newline] @ spaces 14 @ hitsBadge showNumber f (i + 1)
       @ [newline] @ spaces 12 @ ''</div''"
  have "htmlRow showNumber f i line
      = trim (([newline] @ spaces 12) @ CHR ''<'' # ?m @ CHR ''>'' # ([newline] @ spaces 10))"
    by (simp add: htmlRow_def Let_def)
  also have "\<dots> = CHR ''<'' # ?m @ [CHR ''>'']"
    by (rule trim_framed) (simp_all add: spaces_white, simp_all add: isWhiteSpace_def)
  also have "\<dots> = rowBefore f i @ escapeHtml line @ rowAfter showNumber f i"
    by (simp add: rowBefore_def rowAfter_def)
  finally show ?thesis .
qed

lemma escapeHtml_Nil: "escapeHtml [] = []"
  by (simp add: escapeHtml_def replaceAll_def)

lemma htmlRow_markup_count:
  assumes "c \<in> {CHR ''<'', CHR ''>'', doubleQuote, singleQuote}"
  shows "count_list (htmlRow showNumber f i line) c = count_list (htmlRow showNumber f i []) c"
proof -
  have "c \<notin> set (escapeHtml line)" using escapeHtml_markup_free [of line] assms by auto
  then have "count_list (escapeHtml line) c = 0" by (simp add: count_notin)
  then show ?thesis by (simp add: htmlRow_shape escapeHtml_Nil)
qed

lemma count_joinLines:
  "c \<noteq> newline \<Longrightarrow> count_list (joinLines xs) c = sum_list (map (\<lambda>x. count_list x c) xs)"
  by (induction xs rule: joinLines.induct) simp_all

lemma count_concat:
  "count_list (concat xs) c = sum_list (map (\<lambda>x. count_list x c) xs)"
  by (induction xs) simp_all

lemma markup_not_newline: "c \<in> markupChars \<Longrightarrow> c \<noteq> newline"
  by (auto simp: markupChars_def)

lemma count_escapeHtml: "c \<in> markupChars \<Longrightarrow> count_list (escapeHtml s) c = 0"
  using escapeHtml_markup_free [of s] by (auto simp: markupChars_def count_notin)

lemma withoutText_data [simp]:
  "lineHits (withoutText f) = lineHits f"
  "failingLines (withoutText f) = failingLines f"
  "fileCoveragePct (withoutText f) = fileCoveragePct f"
  "relPath (withoutText f) = []"
  "sourceLines (withoutText f) = map (\<lambda>l. []) (sourceLines f)"
  by (simp_all add: withoutText_def)

lemma htmlRow_withoutText: "htmlRow showNumber (withoutText f) i line = htmlRow showNumber f i line"
  by (simp add: htmlRow_def hitsBadge_def classify_def isFailAt_def hitsAt_def)

lemma count_htmlRows:
  assumes "c \<in> markupChars"
  shows "count_list (htmlRows showNumber f) c
           = count_list (htmlRows showNumber (withoutText f)) c"
proof -
  define g where "g i = count_list (htmlRow showNumber f i []) c" for i
  have c: "c \<in> {CHR ''<'', CHR ''>'', doubleQuote, singleQuote}"
    using assms by (simp add: markupChars_def)
  have r: "\<And>i l. count_list (htmlRow showNumber f i l) c = g i"
    unfolding g_def using htmlRow_markup_count [OF c] .
  have z: "zip [0..<length (sourceLines f)] (map (\<lambda>l. []) (sourceLines f))
             = map (\<lambda>(i, l). (i, [])) (zip [0..<length (sourceLines f)] (sourceLines f))"
    by (simp add: zip_map2)
  have 1: "count_list (htmlRows showNumber f) c
      = sum_list (map (\<lambda>(i, l). g i) (zip [0..<length (sourceLines f)] (sourceLines f)))"
    using markup_not_newline [OF assms]
    by (simp add: htmlRows_def count_joinLines comp_def case_prod_unfold r)
  have 2: "count_list (htmlRows showNumber (withoutText f)) c
      = sum_list (map (\<lambda>(i, l). g i) (zip [0..<length (sourceLines f)] (sourceLines f)))"
    using markup_not_newline [OF assms]
    by (simp add: htmlRows_def count_joinLines z comp_def case_prod_unfold
        htmlRow_withoutText r)
  show ?thesis using 1 2 by simp
qed

lemma fileSection_shape:
  "fileSection showNumber toFixed2 idx f =
     sectionBefore @ escapeHtml (relPath f) @ sectionBetween idx @ escapeHtml (relPath f)
       @ sectionMeta toFixed2 (fileCoveragePct f) @ htmlRows showNumber f @ sectionAfter"
proof -
  let ?m = "''section class='' @ quoted ''file''
          @ '' data-file='' @ quoted (escapeHtml (relPath f))
          @ '' style='' @ quoted (''display:'' @ (if idx = 0 then ''block'' else ''none''))
          @ ''>''
        @ [newline] @ spaces 10 @ ''<div class='' @ quoted ''fileHeader'' @ ''>''
        @ [newline] @ spaces 12 @ ''<div class='' @ quoted ''filePath'' @ ''>''
          @ escapeHtml (relPath f) @ ''</div>''
        @ [newline] @ spaces 12 @ ''<div class='' @ quoted ''fileMeta'' @ ''>''
        @ [newline] @ spaces 14
          @ (if isFinite (fileCoveragePct f)
             then ''<span class='' @ quoted ''pill'' @ ''>line coverage: ''
                    @ pctStr toFixed2 (fileCoveragePct f) @ ''%</span>''
             else [])
        @ [newline] @ spaces 12 @ ''</div>''
        @ [newline] @ spaces 10 @ ''</div>''
        @ [newline] @ spaces 10 @ ''<div class='' @ quoted ''codePane''
          @ '' role='' @ quoted ''region'' @ '' aria-label='' @ quoted ''painted code'' @ ''>''
        @ [newline] @ spaces 12 @ htmlRows showNumber f
        @ [newline] @ spaces 10 @ ''</div>''
        @ [newline] @ spaces 8 @ ''</section''"
  have "fileSection showNumber toFixed2 idx f
      = trim (([newline] @ spaces 8) @ CHR ''<'' # ?m @ CHR ''>'' # ([newline] @ spaces 6))"
    by (simp add: fileSection_def)
  also have "\<dots> = CHR ''<'' # ?m @ [CHR ''>'']"
    by (rule trim_framed) (simp_all add: spaces_white, simp_all add: isWhiteSpace_def)
  also have "\<dots> = sectionBefore @ escapeHtml (relPath f) @ sectionBetween idx
       @ escapeHtml (relPath f)
       @ sectionMeta toFixed2 (fileCoveragePct f) @ htmlRows showNumber f @ sectionAfter"
    by (simp add: sectionBefore_def sectionBetween_def sectionMeta_def sectionAfter_def
        quoted_def)
  finally show ?thesis .
qed

lemma count_fileSection:
  assumes "c \<in> markupChars"
  shows "count_list (fileSection showNumber toFixed2 idx f) c
           = count_list (fileSection showNumber toFixed2 idx (withoutText f)) c"
  using count_htmlRows [OF assms, of showNumber f] count_escapeHtml [OF assms]
  by (simp add: fileSection_shape escapeHtml_Nil)

lemma fileOption_shape:
  "fileOption toFixed2 idx f =
     optionBefore @ escapeHtml (relPath f) @ optionBetween idx @ escapeHtml (relPath f)
       @ optionAfter toFixed2 (fileCoveragePct f)"
  by (simp add: fileOption_def optionBefore_def optionBetween_def optionAfter_def quoted_def)

lemma count_fileOption:
  assumes "c \<in> markupChars"
  shows "count_list (fileOption toFixed2 idx f) c
           = count_list (fileOption toFixed2 idx (withoutText f)) c"
  using count_escapeHtml [OF assms]
  by (simp add: fileOption_shape escapeHtml_Nil)

lemma zip_withoutText:
  "zip [0..<length (map withoutText files)] (map withoutText files)
     = map (\<lambda>(i, f). (i, withoutText f)) (zip [0..<length files] files)"
  by (simp add: zip_map2)

lemma count_fileOptions:
  assumes "c \<in> markupChars"
  shows "count_list (fileOptions toFixed2 files) c
           = count_list (fileOptions toFixed2 (map withoutText files)) c"
  unfolding fileOptions_def zip_withoutText
  by (simp add: count_concat comp_def case_prod_unfold count_fileOption [OF assms, symmetric])

lemma count_fileSections:
  assumes "c \<in> markupChars"
  shows "count_list (fileSections showNumber toFixed2 files) c
           = count_list (fileSections showNumber toFixed2 (map withoutText files)) c"
  unfolding fileSections_def zip_withoutText
  using markup_not_newline [OF assms]
  by (simp add: count_joinLines comp_def case_prod_unfold
      count_fileSection [OF assms, symmetric])

lemma count_buildHtmlReport:
  assumes "c \<in> markupChars"
  shows "count_list (buildHtmlReport tpl showNumber toFixed2 title files) c
           = count_list (buildHtmlReport tpl showNumber toFixed2 [] (map withoutText files)) c"
  using count_escapeHtml [OF assms] count_fileOptions [OF assms, of toFixed2 files]
    count_fileSections [OF assms, of showNumber toFixed2 files]
  by (simp add: buildHtmlReport_def escapeHtml_Nil)

lemma trim_core:
  assumes "\<forall>c \<in> set a. isWhiteSpace c" and "\<forall>c \<in> set b. isWhiteSpace c"
    and "s \<noteq> []" and "\<not> isWhiteSpace (hd s)" and "\<not> isWhiteSpace (last s)"
  shows "trim (a @ s @ b) = s"
proof -
  have 1: "dropWhile isWhiteSpace (a @ s @ b) = s @ b"
  proof -
    have "dropWhile isWhiteSpace (a @ s @ b) = dropWhile isWhiteSpace (s @ b)"
      by (rule dropWhile_append2) (use assms(1) in auto)
    also have "\<dots> = s @ b" using assms(3,4) by (cases s) simp_all
    finally show ?thesis .
  qed
  have "dropWhile isWhiteSpace (rev b @ rev s) = dropWhile isWhiteSpace (rev s)"
    by (rule dropWhile_append2) (use assms(2) in auto)
  moreover have "dropWhile isWhiteSpace (rev s) = rev s"
    using assms(3,5) by (cases "rev s") (simp_all add: last_rev [symmetric] hd_rev)
  ultimately show ?thesis unfolding trim_def 1 by simp
qed

lemma white_newline: "\<forall>c \<in> set [newline]. isWhiteSpace c"
  by (simp add: isWhiteSpace_def)

lemma sameTemplate_refl: "sameTemplate a a"
  by (induction a) (simp_all add: same_empty same_char)

lemma sameTemplate_append:
  assumes "sameTemplate a b" and "sameTemplate c d"
  shows "sameTemplate (a @ c) (b @ d)"
  using assms(1)
proof (induction rule: sameTemplate.induct)
  case same_empty
  then show ?case using assms(2) by simp
next
  case (same_char a b x)
  then show ?case using sameTemplate.same_char by simp
next
  case (same_left a b t)
  then show ?case using sameTemplate.same_left [of "a @ c" "b @ d" t] by simp
next
  case (same_right a b t)
  then show ?case using sameTemplate.same_right [of "a @ c" "b @ d" t] by simp
qed

lemma sameTemplate_escaped: "sameTemplate (escapeHtml s) (escapeHtml t)"
proof -
  have "sameTemplate (escapeHtml s @ []) []" using same_empty by (rule same_left)
  then have "sameTemplate (escapeHtml s @ []) (escapeHtml t @ [])" by (rule same_right)
  then show ?thesis by simp
qed

lemma sameTemplate_joinLines:
  assumes "\<forall>x \<in> set xs. sameTemplate (g x) (h x)"
  shows "sameTemplate (joinLines (map g xs)) (joinLines (map h xs))"
  using assms
proof (induction xs)
  case Nil
  then show ?case by (simp add: same_empty)
next
  case (Cons x xs)
  show ?case
  proof (cases xs)
    case Nil
    then show ?thesis using Cons.prems by simp
  next
    case (Cons y ys)
    have r: "sameTemplate (joinLines (map g xs)) (joinLines (map h xs))"
      using Cons.IH Cons.prems by simp
    have "sameTemplate (g x @ [newline] @ joinLines (map g xs))
            (h x @ [newline] @ joinLines (map h xs))"
      by (intro sameTemplate_append sameTemplate_refl r) (use Cons.prems in simp)
    then show ?thesis using Cons by simp
  qed
qed

lemma sameTemplate_concat:
  assumes "\<forall>x \<in> set xs. sameTemplate (g x) (h x)"
  shows "sameTemplate (concat (map g xs)) (concat (map h xs))"
  using assms by (induction xs) (simp_all add: same_empty sameTemplate_append)

lemma sameTemplate_count:
  assumes "sameTemplate a b" and "c \<in> markupChars"
  shows "count_list a c = count_list b c"
  using assms(1)
  by (induction rule: sameTemplate.induct) (simp_all add: count_escapeHtml [OF assms(2)])

lemma escapedText_append:
  assumes "escapedText a" and "escapedText b"
  shows "escapedText (a @ b)"
  using assms(1)
proof (induction rule: escapedText.induct)
  case escaped_empty
  then show ?case using assms(2) by simp
next
  case (escaped_plain c s)
  then show ?case using escapedText.escaped_plain by simp
next
  case (escaped_entity e s)
  then show ?case using escapedText.escaped_entity [of e "s @ b"] by simp
qed

lemma sameTemplate_empty:
  assumes "sameTemplate a b" and "b = []"
  shows "escapedText a"
  using assms
proof (induction rule: sameTemplate.induct)
  case same_empty
  show ?case by (rule escaped_empty)
next
  case (same_char a b c)
  then show ?case by simp
next
  case (same_left a b t)
  then have "escapedText a" by simp
  moreover have "escapedText (escapeHtml t)" by (simp add: escapeHtml_chars escapedText_chars)
  ultimately show ?case using escapedText_append by blast
next
  case (same_right a b t)
  then show ?case by simp
qed

lemma raw_ampersand_differs: "\<not> sameTemplate ''&'' []"
proof
  assume "sameTemplate ''&'' []"
  then have "escapedText ''&''" by (rule sameTemplate_empty) simp
  then have "\<exists>e \<in> set entities. startsWith (CHR ''&'' # []) e"
    by (rule escapedText_ampersand [where pre = "[]"]) simp
  then show False by (simp add: entities_def startsWith_def)
qed

lemma same_htmlRow:
  "sameTemplate (htmlRow showNumber f i l) (htmlRow showNumber (withoutText f) i l')"
  unfolding htmlRow_withoutText
  unfolding htmlRow_shape
  by (intro sameTemplate_append sameTemplate_refl sameTemplate_escaped)

lemma same_htmlRows: "sameTemplate (htmlRows showNumber f) (htmlRows showNumber (withoutText f))"
proof -
  let ?Z = "zip [0..<length (sourceLines f)] (sourceLines f)"
  have z: "zip [0..<length (sourceLines f)] (map (\<lambda>l. []) (sourceLines f))
             = map (\<lambda>(i, l). (i, [])) ?Z"
    by (simp add: zip_map2)
  have w: "htmlRows showNumber (withoutText f)
      = joinLines (map (\<lambda>(i, l). htmlRow showNumber (withoutText f) i []) ?Z)"
    by (simp add: htmlRows_def z comp_def case_prod_unfold)
  have "sameTemplate (joinLines (map (\<lambda>(i, l). htmlRow showNumber f i l) ?Z))
          (joinLines (map (\<lambda>(i, l). htmlRow showNumber (withoutText f) i []) ?Z))"
    by (rule sameTemplate_joinLines) (auto intro: same_htmlRow)
  then show ?thesis unfolding w by (simp add: htmlRows_def)
qed

lemma same_fileSection:
  "sameTemplate (fileSection showNumber toFixed2 idx f)
     (fileSection showNumber toFixed2 idx (withoutText f))"
  unfolding fileSection_shape withoutText_data
  by (intro sameTemplate_append sameTemplate_refl sameTemplate_escaped same_htmlRows)

lemma same_fileOption:
  "sameTemplate (fileOption toFixed2 idx f) (fileOption toFixed2 idx (withoutText f))"
  unfolding fileOption_shape withoutText_data
  by (intro sameTemplate_append sameTemplate_refl sameTemplate_escaped)

lemma same_fileOptions:
  "sameTemplate (fileOptions toFixed2 files) (fileOptions toFixed2 (map withoutText files))"
proof -
  let ?Z = "zip [0..<length files] files"
  have w: "fileOptions toFixed2 (map withoutText files)
      = concat (map (\<lambda>(idx, f). fileOption toFixed2 idx (withoutText f)) ?Z)"
    unfolding fileOptions_def zip_withoutText by (simp add: comp_def case_prod_unfold)
  have "sameTemplate (concat (map (\<lambda>(idx, f). fileOption toFixed2 idx f) ?Z))
          (concat (map (\<lambda>(idx, f). fileOption toFixed2 idx (withoutText f)) ?Z))"
    by (rule sameTemplate_concat) (auto intro: same_fileOption)
  then show ?thesis unfolding w by (simp add: fileOptions_def)
qed

lemma same_fileSections:
  "sameTemplate (fileSections showNumber toFixed2 files)
     (fileSections showNumber toFixed2 (map withoutText files))"
proof -
  let ?Z = "zip [0..<length files] files"
  have w: "fileSections showNumber toFixed2 (map withoutText files)
      = joinLines (map (\<lambda>(idx, f). fileSection showNumber toFixed2 idx (withoutText f)) ?Z)"
    unfolding fileSections_def zip_withoutText by (simp add: comp_def case_prod_unfold)
  have "sameTemplate (joinLines (map (\<lambda>(idx, f). fileSection showNumber toFixed2 idx f) ?Z))
          (joinLines (map (\<lambda>(idx, f). fileSection showNumber toFixed2 idx (withoutText f)) ?Z))"
    by (rule sameTemplate_joinLines) (auto intro: same_fileSection)
  then show ?thesis unfolding w by (simp add: fileSections_def)
qed

lemma same_buildHtmlReport:
  "sameTemplate (buildHtmlReport tpl showNumber toFixed2 title files)
     (buildHtmlReport tpl showNumber toFixed2 [] (map withoutText files))"
  unfolding buildHtmlReport_def
  by (intro sameTemplate_append sameTemplate_refl sameTemplate_escaped same_fileOptions
      same_fileSections)

lemma classify_withoutText: "classify (withoutText f) n = classify f n"
  by (simp add: classify_def isFailAt_def hitsAt_def)

lemma same_paintedLine: "sameTemplate (paintedLine f i l) (paintedLine (withoutText f) i l')"
  unfolding paintedLine_def Let_def classify_withoutText
  by (intro sameTemplate_append sameTemplate_refl sameTemplate_escaped)

lemma same_paintedLines:
  "sameTemplate (joinLines (paintedLines maxLinesPerFile f))
     (joinLines (paintedLines maxLinesPerFile (withoutText f)))"
proof -
  have l: "length (sourceLines (withoutText f)) = length (sourceLines f)" by simp
  show ?thesis
    unfolding paintedLines_def Let_def l
    by (rule sameTemplate_joinLines) (simp add: same_paintedLine)
qed

lemma same_detailsBody:
  "sameTemplate (detailsBody toFixed2 maxLinesPerFile f)
     (detailsBody toFixed2 maxLinesPerFile (withoutText f))"
proof -
  have l: "length (sourceLines (withoutText f)) = length (sourceLines f)" by simp
  show ?thesis
    unfolding detailsBody_def l withoutText_data(3,4)
    by (intro sameTemplate_append sameTemplate_refl sameTemplate_escaped same_paintedLines)
qed

lemma detailsBody_ends:
  "detailsBody toFixed2 maxLinesPerFile f \<noteq> []"
  "hd (detailsBody toFixed2 maxLinesPerFile f) = CHR ''<''"
  "last (detailsBody toFixed2 maxLinesPerFile f) = CHR ''>''"
  by (simp_all add: detailsBody_def)

lemma detailsSection_shape:
  "detailsSection toFixed2 maxLinesPerFile f = detailsBody toFixed2 maxLinesPerFile f"
  unfolding detailsSection_def
  by (rule trim_core)
     (simp_all add: spaces_white detailsBody_ends, simp_all add: isWhiteSpace_def)

lemma same_detailsSections:
  "sameTemplate (joinLines (map (detailsSection toFixed2 maxLinesPerFile) (take maxFiles files)))
     (joinLines (map (detailsSection toFixed2 maxLinesPerFile)
        (take maxFiles (map withoutText files))))"
proof -
  have w: "map (detailsSection toFixed2 maxLinesPerFile) (take maxFiles (map withoutText files))
      = map (\<lambda>f. detailsSection toFixed2 maxLinesPerFile (withoutText f)) (take maxFiles files)"
    by (simp add: take_map comp_def)
  show ?thesis
    unfolding w
    by (rule sameTemplate_joinLines) (simp add: detailsSection_shape same_detailsBody)
qed

lemma summaryBody_ends:
  "summaryBody conv showNumber toFixed2 title ms threshold g sections moreNote \<noteq> []"
  "hd (summaryBody conv showNumber toFixed2 title ms threshold g sections moreNote)
     = CHR ''<''"
  "last (summaryBody conv showNumber toFixed2 title ms threshold g sections moreNote)
     = CHR ''>''"
  by (simp_all add: summaryBody_def summaryHeading_def tipParagraph_def)

lemma summary_trimmed:
  "trim ([newline]
         @ summaryBody conv showNumber toFixed2 title ms threshold g sections moreNote
         @ [newline])
     = summaryBody conv showNumber toFixed2 title ms threshold g sections moreNote"
  by (rule trim_core)
     (simp_all add: summaryBody_ends, simp_all add: isWhiteSpace_def)

lemma same_summaryBody:
  assumes "sameTemplate sections sections'"
  shows "sameTemplate
     (summaryBody conv showNumber toFixed2 title ms threshold g sections moreNote)
     (summaryBody conv showNumber toFixed2 title' ms threshold g sections' moreNote)"
  unfolding summaryBody_def summaryHeading_def
  by (intro sameTemplate_append sameTemplate_refl sameTemplate_escaped assms)

lemma same_buildHtmlCodePaintingSummary:
  "rel_sum (=) sameTemplate
     (buildHtmlCodePaintingSummary conv showNumber toFixed2 title ms threshold files maxFiles
        maxLinesPerFile)
     (buildHtmlCodePaintingSummary conv showNumber toFixed2 [] ms threshold
        (map withoutText files) maxFiles maxLinesPerFile)"
  unfolding buildHtmlCodePaintingSummary_def Let_def summary_trimmed
  by (simp add: same_summaryBody same_detailsSections)

lemma summary_returns:
  assumes "\<not> metricThrows (lines ms)" and "\<not> metricThrows (branches ms)"
    and "\<not> metricThrows (functionsMetric ms)" and "\<not> metricThrows (statements ms)"
  shows "buildHtmlCodePaintingSummary conv showNumber toFixed2 title ms threshold files maxFiles
           maxLinesPerFile
     = Inr (summaryBody conv showNumber toFixed2 title ms threshold
              (gate (pctRead conv (lines ms)) threshold)
              (joinLines (map (detailsSection toFixed2 maxLinesPerFile) (take maxFiles files)))
              (moreFilesNote maxFiles (length files)))"
  unfolding buildHtmlCodePaintingSummary_def Let_def summary_trimmed
  using assms by simp

lemma includes_step: "includesStr b m \<Longrightarrow> includesStr (a @ b) m"
proof -
  assume "includesStr b m"
  then obtain pre post where "b = pre @ m @ post" using includes_decomp by blast
  then have "a @ b = (a @ pre) @ m @ post" by simp
  then show ?thesis using includes_decomp by blast
qed

lemma includes_left: "includesStr a m \<Longrightarrow> includesStr (a @ b) m"
proof -
  assume "includesStr a m"
  then obtain pre post where "a = pre @ m @ post" using includes_decomp by blast
  then have "a @ b = pre @ m @ (post @ b)" by simp
  then show ?thesis using includes_decomp by blast
qed

lemma includes_self: "includesStr m m"
  using includes_decomp [of m m] by (metis append_Nil append_Nil2)

lemma metricRow_cell: "includesStr (metricRow label p c t) (countsCell c t)"
  unfolding metricRow_def
  by (rule includes_left [OF includes_self] | rule includes_step)+

lemma summaryBody_cell:
  assumes "metricRowOf conv showNumber toFixed2 ''Lines'' (lines ms) = metricRow ''Lines'' p c t"
  shows "includesStr
     (summaryBody conv showNumber toFixed2 title ms threshold g sections moreNote)
     (countsCell c t)"
  unfolding summaryBody_def assms
  by (rule includes_left [OF metricRow_cell] | rule includes_step)+

lemma count_metricRow:
  "count_list (metricRow label p c t) (CHR ''<'')
     = count_list (metricRow label p [] t) (CHR ''<'') + count_list c (CHR ''<'')"
  by (simp add: metricRow_def countsCell_def)

lemma markup_facts:
  "\<not> metricThrows (lines markupMetrics)" "\<not> metricThrows (branches markupMetrics)"
  "\<not> metricThrows (functionsMetric markupMetrics)" "\<not> metricThrows (statements markupMetrics)"
  "\<not> metricThrows (lines blankMetrics)" "\<not> metricThrows (branches blankMetrics)"
  "\<not> metricThrows (functionsMetric blankMetrics)" "\<not> metricThrows (statements blankMetrics)"
  by (simp_all add: metricThrows_def readThrows_def markupMetrics_def blankMetrics_def)

lemma markup_rows:
  "metricRowOf numberOfJson showNumber toFixed2 ''Lines'' (lines markupMetrics)
     = metricRow ''Lines'' (toFixed2 50) ''<b>'' (showNumber 3)"
  "metricRowOf numberOfJson showNumber toFixed2 ''Lines'' (lines blankMetrics)
     = metricRow ''Lines'' (toFixed2 50) [] (showNumber 3)"
  "branches markupMetrics = branches blankMetrics"
  "functionsMetric markupMetrics = functionsMetric blankMetrics"
  "statements markupMetrics = statements blankMetrics"
  "pctRead numberOfJson (lines markupMetrics) = pctRead numberOfJson (lines blankMetrics)"
  by (simp_all add: metricRowOf_def markupMetrics_def blankMetrics_def countRead_def
      pctRead_def jsNumberOf_def pctStr_def showJsNumber_def)

lemma wholeNumber_three: "wholeNumber 3 = ''3''"
  by code_simp

lemma markup_count:
  "count_list
     (summaryBody numberOfJson showNumber toFixed2 title markupMetrics threshold g sections
        moreNote) (CHR ''<'')
   = Suc (count_list
     (summaryBody numberOfJson showNumber toFixed2 title blankMetrics threshold g sections
        moreNote) (CHR ''<''))"
  unfolding summaryBody_def markup_rows(1,2) markup_rows(3,4,5) [symmetric]
  by (simp add: count_metricRow [of _ _ "''<b>''"])

text \<open>
  C9. For every string the output of the escaping function is text in which a
  reserved character stands only inside one of the five entities: it contains no
  \<open><\<close>, \<open>>\<close>, double quote or single quote at all, and every \<open>&\<close> in it begins one
  of \<^verbatim>\<open>&amp; &lt; &gt; &quot; &#39;\<close>. The run title, the file paths and the source
  lines enter the two HTML artifacts, the report and the step summary, through
  the escaping function only. A row of the report is template text around the
  escaped line. The report for any title, paths and source lines is the same
  template as the report for the same coverage data with these texts empty, and
  so is the step summary, which throws for the one when it throws for the other.
  Documents that are the same template have as many \<open><\<close>, \<open>>\<close> and quotes, and a
  document that is the same template as the empty one is escaped text. The
  counts \<^verbatim>\<open>covered\<close> and \<^verbatim>\<open>total\<close> of the summary document are not among these
  texts: they are the same on both sides of the comparison.
\<close>

theorem escapeHtml_safe:
  "escapedText (escapeHtml s)
   \<and> set (escapeHtml s) \<inter> {CHR ''<'', CHR ''>'', doubleQuote, singleQuote} = {}
   \<and> (\<forall>pre post. escapeHtml s = pre @ CHR ''&'' # post \<longrightarrow>
         (\<exists>e \<in> set entities. startsWith (CHR ''&'' # post) e))
   \<and> (\<exists>pre post. \<forall>line. htmlRow showNumber f i line = pre @ escapeHtml line @ post)
   \<and> (\<forall>c \<in> markupChars.
         count_list (htmlRow showNumber f i line) c = count_list (htmlRow showNumber f i []) c)
   \<and> (\<forall>c \<in> markupChars.
         count_list (buildHtmlReport tpl showNumber toFixed2 title files) c
           = count_list (buildHtmlReport tpl showNumber toFixed2 [] (map withoutText files)) c)
   \<and> sameTemplate (buildHtmlReport tpl showNumber toFixed2 title files)
         (buildHtmlReport tpl showNumber toFixed2 [] (map withoutText files))
   \<and> rel_sum (=) sameTemplate
         (buildHtmlCodePaintingSummary conv showNumber toFixed2 title ms threshold files
            maxFiles maxLinesPerFile)
         (buildHtmlCodePaintingSummary conv showNumber toFixed2 [] ms threshold
            (map withoutText files) maxFiles maxLinesPerFile)
   \<and> (\<forall>a b. sameTemplate a b \<longrightarrow>
         (\<forall>c \<in> markupChars. count_list a c = count_list b c))
   \<and> (\<forall>a. sameTemplate a [] \<longrightarrow> escapedText a)"
proof -
  have e: "escapedText (escapeHtml s)" by (simp add: escapeHtml_chars escapedText_chars)
  have m: "set (escapeHtml s) \<inter> {CHR ''<'', CHR ''>'', doubleQuote, singleQuote} = {}"
    by (rule escapeHtml_markup_free)
  have a: "\<forall>pre post. escapeHtml s = pre @ CHR ''&'' # post \<longrightarrow>
         (\<exists>e \<in> set entities. startsWith (CHR ''&'' # post) e)"
    using escapedText_ampersand [OF e] by blast
  have r: "\<exists>pre post. \<forall>line. htmlRow showNumber f i line = pre @ escapeHtml line @ post"
    using htmlRow_shape by blast
  have c: "\<forall>c \<in> markupChars.
         count_list (htmlRow showNumber f i line) c = count_list (htmlRow showNumber f i []) c"
    using htmlRow_markup_count unfolding markupChars_def by blast
  have d: "\<forall>c \<in> markupChars.
         count_list (buildHtmlReport tpl showNumber toFixed2 title files) c
           = count_list (buildHtmlReport tpl showNumber toFixed2 [] (map withoutText files)) c"
    using count_buildHtmlReport by blast
  have k: "\<forall>a b. sameTemplate a b \<longrightarrow>
         (\<forall>c \<in> markupChars. count_list a c = count_list b c)"
    using sameTemplate_count by blast
  have z: "\<forall>a. sameTemplate a [] \<longrightarrow> escapedText a"
    using sameTemplate_empty by blast
  show ?thesis
    by (intro conjI e m a r c d same_buildHtmlReport same_buildHtmlCodePaintingSummary k z)
qed

theorem escapeHtml_safe_witness:
  "escapeHtml exampleSource = exampleEscaped
   \<and> escapedText exampleEscaped
   \<and> set exampleEscaped \<inter> {CHR ''<'', CHR ''>'', doubleQuote, singleQuote} = {}
   \<and> exampleEscaped = ''if (a&lt;b '' @ CHR ''&'' # ''amp;&amp; c&gt;d) s=&quot;it&#39;s&quot;''
   \<and> (\<exists>e \<in> set entities. startsWith (CHR ''&'' # ''amp;&amp; c&gt;d) s=&quot;it&#39;s&quot;'') e)
   \<and> CHR ''<'' \<in> markupChars
   \<and> count_list (htmlRow wholeNumber exampleFile 2 exampleSource) (CHR ''<'')
       = count_list (htmlRow wholeNumber exampleFile 2 []) (CHR ''<'')
   \<and> count_list (buildHtmlReport exampleTemplate wholeNumber twoDecimals ''a<b''
          [exampleFile]) (CHR ''<'')
       = count_list (buildHtmlReport exampleTemplate wholeNumber twoDecimals []
          (map withoutText [exampleFile])) (CHR ''<'')
   \<and> sameTemplate
         (buildHtmlReport exampleTemplate wholeNumber twoDecimals ''a<b'' [exampleFile])
         (buildHtmlReport exampleTemplate wholeNumber twoDecimals []
            (map withoutText [exampleFile]))
   \<and> rel_sum (=) sameTemplate
         (buildHtmlCodePaintingSummary numberOfJson wholeNumber twoDecimals ''a<b''
            blankMetrics 80 [exampleFile] defaultMaxFiles defaultMaxLinesPerFile)
         (buildHtmlCodePaintingSummary numberOfJson wholeNumber twoDecimals []
            blankMetrics 80 (map withoutText [exampleFile]) defaultMaxFiles
            defaultMaxLinesPerFile)
   \<and> buildHtmlCodePaintingSummary numberOfJson wholeNumber twoDecimals ''a<b''
         blankMetrics 80 [exampleFile] defaultMaxFiles defaultMaxLinesPerFile
       \<noteq> Inl TypeError"
proof -
  note t = escapeHtml_safe [of exampleSource wholeNumber exampleFile 2 exampleSource
      exampleTemplate twoDecimals "''a<b''" "[exampleFile]" numberOfJson blankMetrics 80
      defaultMaxFiles defaultMaxLinesPerFile]
  note t4 = t [THEN conjunct2, THEN conjunct2, THEN conjunct2, THEN conjunct2]
  note t6 = t4 [THEN conjunct2, THEN conjunct2]
  have x: "escapeHtml exampleSource = exampleEscaped"
    by (simp add: escapeHtml_def replaceAll_def exampleSource_def exampleEscaped_def)
  have d: "exampleEscaped = ''if (a&lt;b '' @ CHR ''&'' # ''amp;&amp; c&gt;d) s=&quot;it&#39;s&quot;''"
    by (simp add: exampleEscaped_def)
  have m: "CHR ''<'' \<in> markupChars" by (simp add: markupChars_def)
  have 1: "escapedText exampleEscaped"
    using t [THEN conjunct1] unfolding x .
  have 2: "set exampleEscaped \<inter> {CHR ''<'', CHR ''>'', doubleQuote, singleQuote} = {}"
    using t [THEN conjunct2, THEN conjunct1] unfolding x .
  have "\<forall>pre post. exampleEscaped = pre @ CHR ''&'' # post \<longrightarrow>
         (\<exists>e \<in> set entities. startsWith (CHR ''&'' # post) e)"
    using t [THEN conjunct2, THEN conjunct2, THEN conjunct1] unfolding x .
  then have 3: "\<exists>e \<in> set entities.
      startsWith (CHR ''&'' # ''amp;&amp; c&gt;d) s=&quot;it&#39;s&quot;'') e"
    using d by blast
  have 4: "count_list (htmlRow wholeNumber exampleFile 2 exampleSource) (CHR ''<'')
       = count_list (htmlRow wholeNumber exampleFile 2 []) (CHR ''<'')"
    using t4 [THEN conjunct1] m by (rule bspec)
  have 5: "count_list (buildHtmlReport exampleTemplate wholeNumber twoDecimals ''a<b''
          [exampleFile]) (CHR ''<'')
       = count_list (buildHtmlReport exampleTemplate wholeNumber twoDecimals []
          (map withoutText [exampleFile])) (CHR ''<'')"
    using t4 [THEN conjunct2, THEN conjunct1] m by (rule bspec)
  have 6: "sameTemplate
         (buildHtmlReport exampleTemplate wholeNumber twoDecimals ''a<b'' [exampleFile])
         (buildHtmlReport exampleTemplate wholeNumber twoDecimals []
            (map withoutText [exampleFile]))"
    by (rule t6 [THEN conjunct1])
  have 7: "rel_sum (=) sameTemplate
         (buildHtmlCodePaintingSummary numberOfJson wholeNumber twoDecimals ''a<b''
            blankMetrics 80 [exampleFile] defaultMaxFiles defaultMaxLinesPerFile)
         (buildHtmlCodePaintingSummary numberOfJson wholeNumber twoDecimals []
            blankMetrics 80 (map withoutText [exampleFile]) defaultMaxFiles
            defaultMaxLinesPerFile)"
    by (rule t6 [THEN conjunct2, THEN conjunct1])
  have 8: "buildHtmlCodePaintingSummary numberOfJson wholeNumber twoDecimals ''a<b''
         blankMetrics 80 [exampleFile] defaultMaxFiles defaultMaxLinesPerFile
       \<noteq> Inl TypeError"
    by (simp add: summary_returns [OF markup_facts(5,6,7,8)])
  show ?thesis by (intro conjI x 1 2 d 3 m 4 5 6 7 8)
qed

text \<open>
  The step summary writes the counts of the summary document as the document
  gives them. For a document whose \<^verbatim>\<open>total.lines.covered\<close> is the string \<^verbatim>\<open><b>\<close> the
  reader returns that string, and the fragment holds the cell with the string as
  it is: the fragment is not the same template as the one for the empty string.
\<close>

theorem escapeHtml_safe_counterexample:
  "readCoverageSummary (Some markupSummary)
     = Inr \<lparr> metrics = markupMetrics, perFile = [], perFileProto = None,
             rawDoc = markupSummary \<rparr>
   \<and> buildHtmlCodePaintingSummary numberOfJson wholeNumber twoDecimals ''Coverage''
         markupMetrics 80 [] defaultMaxFiles defaultMaxLinesPerFile
       \<noteq> Inl TypeError
   \<and> includesStr
         (projr (buildHtmlCodePaintingSummary numberOfJson wholeNumber twoDecimals
            ''Coverage'' markupMetrics 80 [] defaultMaxFiles defaultMaxLinesPerFile))
         (countsCell ''<b>'' ''3'')
   \<and> countsCell ''<b>'' ''3''
       = ''<td style='' @ quoted ''text-align: right;'' @ ''><b> / 3</td>''
   \<and> \<not> sameTemplate
         (projr (buildHtmlCodePaintingSummary numberOfJson wholeNumber twoDecimals
            ''Coverage'' markupMetrics 80 [] defaultMaxFiles defaultMaxLinesPerFile))
         (projr (buildHtmlCodePaintingSummary numberOfJson wholeNumber twoDecimals
            ''Coverage'' blankMetrics 80 [] defaultMaxFiles defaultMaxLinesPerFile))"
proof -
  let ?g = "gate (pctRead numberOfJson (lines markupMetrics)) 80"
  let ?m = "summaryBody numberOfJson wholeNumber twoDecimals ''Coverage'' markupMetrics 80
      ?g [] []"
  let ?b = "summaryBody numberOfJson wholeNumber twoDecimals ''Coverage'' blankMetrics 80
      ?g [] []"
  have r: "readCoverageSummary (Some markupSummary)
     = Inr \<lparr> metrics = markupMetrics, perFile = [], perFileProto = None,
             rawDoc = markupSummary \<rparr>"
    by (simp add: readCoverageSummary_def markupSummary_def markupMetrics_def totalOf_def
        orEmptyObject_def assignedProperties_def assignedProto_def Let_def)
  have dm: "buildHtmlCodePaintingSummary numberOfJson wholeNumber twoDecimals ''Coverage''
         markupMetrics 80 [] defaultMaxFiles defaultMaxLinesPerFile = Inr ?m"
    by (simp add: summary_returns [OF markup_facts(1,2,3,4)] moreFilesNote_def)
  have db: "buildHtmlCodePaintingSummary numberOfJson wholeNumber twoDecimals ''Coverage''
         blankMetrics 80 [] defaultMaxFiles defaultMaxLinesPerFile = Inr ?b"
    by (simp add: summary_returns [OF markup_facts(5,6,7,8)] moreFilesNote_def
        markup_rows(6))
  have "includesStr ?m (countsCell ''<b>'' (wholeNumber 3))"
    using markup_rows(1) by (rule summaryBody_cell)
  then have i: "includesStr ?m (countsCell ''<b>'' ''3'')"
    by (simp only: wholeNumber_three)
  have c: "countsCell ''<b>'' ''3''
       = ''<td style='' @ quoted ''text-align: right;'' @ ''><b> / 3</td>''"
    by (simp add: countsCell_def quoted_def)
  have n: "\<not> sameTemplate ?m ?b"
  proof
    assume "sameTemplate ?m ?b"
    then have "count_list ?m (CHR ''<'') = count_list ?b (CHR ''<'')"
      by (rule sameTemplate_count) (simp add: markupChars_def)
    then show False using markup_count [of wholeNumber twoDecimals "''Coverage''" 80 ?g "[]" "[]"]
      by simp
  qed
  show ?thesis unfolding dm db sum.sel using r i c n by simp
qed

end
